theory Spec2Isabelle
  imports Main "HOL-Library.Sublist"
begin

section \<open>JavaScript values used by index.js\<close>

text \<open>
  A JavaScript \<^verbatim>\<open>Date\<close> object holds a time value: a number of milliseconds since the epoch, or
  NaN (an "Invalid Date"). Every \<^verbatim>\<open>Date\<close> object is truthy, also an invalid one; a slot that holds
  \<^verbatim>\<open>null\<close> is modelled by \<open>None\<close>.
\<close>

datatype jsdate = InvalidDate | Instant int

text \<open>Relational operators on dates compare the time values; a comparison with NaN is false.\<close>

fun date_lt :: "jsdate \<Rightarrow> jsdate \<Rightarrow> bool" where
  "date_lt (Instant a) (Instant b) = (a < b)"
| "date_lt _ _ = False"

fun date_gt :: "jsdate \<Rightarrow> jsdate \<Rightarrow> bool" where
  "date_gt (Instant a) (Instant b) = (a > b)"
| "date_gt _ _ = False"

fun date_ge :: "jsdate \<Rightarrow> jsdate \<Rightarrow> bool" where
  "date_ge (Instant a) (Instant b) = (a \<ge> b)"
| "date_ge _ _ = False"

text \<open>\<^verbatim>\<open>a.getTime() !== b.getTime()\<close>: NaN is different from everything, itself included.\<close>

fun getTime_differs :: "jsdate \<Rightarrow> jsdate \<Rightarrow> bool" where
  "getTime_differs (Instant a) (Instant b) = (a \<noteq> b)"
| "getTime_differs _ _ = True"

text \<open>
  Strings are modelled as lists of 8-bit characters (ASCII text). \<open>truthy\<close> is the truth value of
  a string-or-null slot: \<^verbatim>\<open>null\<close>, \<^verbatim>\<open>undefined\<close> and the empty string are falsy.
\<close>

fun truthy :: "string option \<Rightarrow> bool" where
  "truthy None = False"
| "truthy (Some s) = (s \<noteq> [])"

fun str_of :: "string option \<Rightarrow> string" where
  "str_of None = []"
| "str_of (Some s) = s"

definition lower_char :: "char \<Rightarrow> char" where
  "lower_char c =
     (let n = (of_char c :: nat) in if 65 \<le> n \<and> n \<le> 90 then char_of (n + 32) else c)"

definition toLowerCase :: "string \<Rightarrow> string" where
  "toLowerCase s = map lower_char s"

definition startsWith :: "string \<Rightarrow> string \<Rightarrow> bool" where
  "startsWith s p = (take (length p) s = p)"

fun str_includes :: "string \<Rightarrow> string \<Rightarrow> bool" where
  "str_includes [] sub = (sub = [])"
| "str_includes (c # cs) sub = (startsWith (c # cs) sub \<or> str_includes cs sub)"

text \<open>Decimal rendering of a non-negative integer, as a template literal does it.\<close>

function show_nat :: "nat \<Rightarrow> string" where
  "show_nat n =
     (if n < 10 then [char_of (48 + n)] else show_nat (n div 10) @ [char_of (48 + n mod 10)])"
  by pat_completeness auto
termination
  by (relation "measure id") auto

declare show_nat.simps [simp del]

section \<open>Data model\<close>

record label =
  label_name :: string
  color :: string

record assignee =
  login :: string
  avatar_url :: string

record milestone =
  milestone_title :: string
  due_on :: "string option"

text \<open>The \<^verbatim>\<open>content\<close> of a project item, with the fields that the event pipeline reads.\<close>

record issue =
  number :: nat
  title :: string
  body :: "string option"
  state :: string
  created_at :: string
  html_url :: string
  labels :: "label list"
  assignees :: "assignee list"
  milestone :: "milestone option"

text \<open>
  One node of \<^verbatim>\<open>item.fieldValues.nodes\<close>: \<^verbatim>\<open>field.name\<close> and the four payload slots
  \<^verbatim>\<open>date\<close>, \<^verbatim>\<open>text\<close>, \<^verbatim>\<open>name\<close>, \<^verbatim>\<open>number\<close>, each possibly \<^verbatim>\<open>null\<close>.
\<close>

record field_value =
  fv_field_name :: string
  fv_date :: "string option"
  fv_text :: "string option"
  fv_name :: "string option"
  fv_number :: "int option"

record project_item =
  item_id :: string
  content :: issue
  fieldValues :: "field_value list"

text \<open>
  The event object built by \<^verbatim>\<open>transformToCalendarEvents\<close>. Only events that pass the final
  \<^verbatim>\<open>filter((event) => event.startDate)\<close> exist downstream, so \<open>startDate\<close> is a \<^verbatim>\<open>Date\<close> object
  there, while \<open>endDate\<close> may be \<^verbatim>\<open>null\<close>.
\<close>

record calendar_event =
  event_id :: string
  event_title :: string
  startDate :: jsdate
  endDate :: "jsdate option"
  url :: string
  event_labels :: "label list"
  event_assignees :: "assignee list"
  status :: string
  projectStatus :: "string option"
  event_type :: string

section \<open>transformToCalendarEvents\<close>

text \<open>
  The three variables \<^verbatim>\<open>startDate\<close>, \<^verbatim>\<open>endDate\<close>, \<^verbatim>\<open>projectStatus\<close> that the
  \<^verbatim>\<open>forEach\<close> over the field values assigns.
\<close>

record slots =
  slot_start :: "jsdate option"
  slot_end :: "jsdate option"
  slot_status :: "string option"

definition no_slots :: slots where
  "no_slots = \<lparr>slot_start = None, slot_end = None, slot_status = None\<rparr>"

text \<open>
  The body of the \<^verbatim>\<open>forEach\<close> callback (index.js lines 323-331). \<open>parse\<close> stands for the
  \<^verbatim>\<open>new Date(string)\<close> constructor of the JavaScript runtime. Each branch assigns its variable
  whatever it held before.
\<close>

definition scanFieldValue :: "(string \<Rightarrow> jsdate) \<Rightarrow> slots \<Rightarrow> field_value \<Rightarrow> slots" where
  "scanFieldValue parse st fieldValue =
     (let fieldName = toLowerCase (fv_field_name fieldValue) in
      if str_includes fieldName ''start'' \<and> truthy (fv_date fieldValue)
        then st\<lparr>slot_start := Some (parse (str_of (fv_date fieldValue)))\<rparr>
      else if (str_includes fieldName ''end'' \<or> str_includes fieldName ''due'') \<and> truthy (fv_date fieldValue)
        then st\<lparr>slot_end := Some (parse (str_of (fv_date fieldValue)))\<rparr>
      else if (str_includes fieldName ''status'' \<or> str_includes fieldName ''state''
                \<or> str_includes fieldName ''progress'') \<and> truthy (fv_name fieldValue)
        then st\<lparr>slot_status := fv_name fieldValue\<rparr>
      else st)"

definition scanFieldValues :: "(string \<Rightarrow> jsdate) \<Rightarrow> field_value list \<Rightarrow> slots" where
  "scanFieldValues parse nodes = foldl (scanFieldValue parse) no_slots nodes"

text \<open>
  The two regular expressions of lines 339-340,
  \<^verbatim>\<open>/\*\*Start Date:\*\*.*?\(([^)]+)\)/\<close> and the same with \<^verbatim>\<open>End Date\<close>, as a backtracking
  matcher. \<open>paren_group\<close> is the tail \<^verbatim>\<open>\(([^)]+)\)\<close> anchored at the head of the string: an
  opening parenthesis, the longest run of characters other than the closing parenthesis (which
  must not be empty), and a closing parenthesis; it yields the captured run.
  \<open>lazy_any_then_group\<close> is \<^verbatim>\<open>.*?\<close> followed by that tail: the group is tried at the current
  position first, and only when it fails is one more character consumed, which must not be a
  line terminator (line feed or carriage return; the separators U+2028 and U+2029 lie outside
  the ASCII strings of this model). \<open>match_marker\<close> tries the start positions from left to
  right.
\<close>

definition is_line_terminator :: "char \<Rightarrow> bool" where
  "is_line_terminator c = (c = CHR 0x0A \<or> c = CHR 0x0D)"

definition paren_group :: "string \<Rightarrow> string option" where
  "paren_group s =
     (case s of
        [] \<Rightarrow> None
      | c # rest \<Rightarrow>
          if c \<noteq> CHR ''(''  then None
          else (let run = takeWhile (\<lambda>x. x \<noteq> CHR '')'') rest;
                    after = dropWhile (\<lambda>x. x \<noteq> CHR '')'') rest
                in if run = [] \<or> after = [] then None else Some run))"

fun lazy_any_then_group :: "string \<Rightarrow> string option" where
  "lazy_any_then_group [] = None"
| "lazy_any_then_group (c # cs) =
     (case paren_group (c # cs) of
        Some g \<Rightarrow> Some g
      | None \<Rightarrow> if is_line_terminator c then None else lazy_any_then_group cs)"

definition match_at :: "string \<Rightarrow> string \<Rightarrow> string option" where
  "match_at marker s =
     (if startsWith s marker then lazy_any_then_group (drop (length marker) s) else None)"

fun match_marker :: "string \<Rightarrow> string \<Rightarrow> string option" where
  "match_marker marker [] = match_at marker []"
| "match_marker marker (c # cs) =
     (case match_at marker (c # cs) of
        Some g \<Rightarrow> Some g
      | None \<Rightarrow> match_marker marker cs)"

definition startDateMatch :: "string \<Rightarrow> string option" where
  "startDateMatch b = match_marker ''**Start Date:**'' b"

definition endDateMatch :: "string \<Rightarrow> string option" where
  "endDateMatch b = match_marker ''**End Date:**'' b"

text \<open>Lines 334-349: the body is consulted only when a slot is still \<^verbatim>\<open>null\<close>.\<close>

definition scanBody :: "(string \<Rightarrow> jsdate) \<Rightarrow> issue \<Rightarrow> slots \<Rightarrow> slots" where
  "scanBody parse i st =
     (if slot_start st = None \<or> slot_end st = None then
        (let b = str_of (body i);
             st1 = (case startDateMatch b of
                      Some g \<Rightarrow> if slot_start st = None then st\<lparr>slot_start := Some (parse g)\<rparr> else st
                    | None \<Rightarrow> st)
         in (case endDateMatch b of
               Some g \<Rightarrow> if slot_end st1 = None then st1\<lparr>slot_end := Some (parse g)\<rparr> else st1
             | None \<Rightarrow> st1))
      else st)"

text \<open>Lines 351-354: the creation date.\<close>

definition createdFallback :: "(string \<Rightarrow> jsdate) \<Rightarrow> issue \<Rightarrow> slots \<Rightarrow> slots" where
  "createdFallback parse i st =
     (if slot_start st = None then st\<lparr>slot_start := Some (parse (created_at i))\<rparr> else st)"

text \<open>Lines 356-359: the due date of the milestone.\<close>

definition milestoneFallback :: "(string \<Rightarrow> jsdate) \<Rightarrow> issue \<Rightarrow> slots \<Rightarrow> slots" where
  "milestoneFallback parse i st =
     (case milestone i of
        None \<Rightarrow> st
      | Some m \<Rightarrow>
          if slot_end st = None \<and> truthy (due_on m)
          then st\<lparr>slot_end := Some (parse (str_of (due_on m)))\<rparr> else st)"

definition resolveSlots :: "(string \<Rightarrow> jsdate) \<Rightarrow> project_item \<Rightarrow> slots" where
  "resolveSlots parse item =
     milestoneFallback parse (content item)
       (createdFallback parse (content item)
          (scanBody parse (content item) (scanFieldValues parse (fieldValues item))))"

text \<open>
  The callback of \<^verbatim>\<open>items.map\<close> followed by the test of \<^verbatim>\<open>filter\<close>: the result is \<open>None\<close>
  when \<^verbatim>\<open>event.startDate\<close> is falsy, and the event otherwise.
\<close>

definition toEvent :: "(string \<Rightarrow> jsdate) \<Rightarrow> project_item \<Rightarrow> calendar_event option" where
  "toEvent parse item =
     (let i = content item; st = resolveSlots parse item in
      case slot_start st of
        None \<Rightarrow> None
      | Some sd \<Rightarrow>
          Some \<lparr>event_id = show_nat (number i),
                event_title = title i,
                startDate = sd,
                endDate = slot_end st,
                url = html_url i,
                event_labels = map (\<lambda>l. \<lparr>label_name = label_name l, color = CHR ''#'' # color l\<rparr>) (labels i),
                event_assignees = map (\<lambda>a. \<lparr>login = login a, avatar_url = avatar_url a\<rparr>) (assignees i),
                status = state i,
                projectStatus = slot_status st,
                event_type = ''issue''\<rparr>)"

definition transformToCalendarEvents ::
  "(string \<Rightarrow> jsdate) \<Rightarrow> project_item list \<Rightarrow> calendar_event list" where
  "transformToCalendarEvents parse items = List.map_filter (toEvent parse) items"

section \<open>analyzeTeamWorkload\<close>

record workload_entry =
  member_login :: string
  member_avatar_url :: string
  activeIssues :: nat
  upcomingIssues :: nat
  overdueIssues :: nat
  totalWorkload :: nat

text \<open>
  \<^verbatim>\<open>teamWorkload\<close> is created by the literal \<^verbatim>\<open>{}\<close> and used as a dictionary from login to
  entry. It is modelled by the list of its own properties in creation order. A read
  \<^verbatim>\<open>teamWorkload[key]\<close> that finds no own property goes on to \<^verbatim>\<open>Object.prototype\<close>, whose
  members (functions, and the accessor \<^verbatim>\<open>__proto__\<close>) are all truthy.
\<close>

type_synonym team_workload = "(string \<times> workload_entry) list"

definition Object_prototype_names :: "string list" where
  "Object_prototype_names =
     [''constructor'', ''__defineGetter__'', ''__defineSetter__'', ''hasOwnProperty'',
      ''__lookupGetter__'', ''__lookupSetter__'', ''isPrototypeOf'', ''propertyIsEnumerable'',
      ''toString'', ''valueOf'', ''__proto__'', ''toLocaleString'']"

definition new_member :: "assignee \<Rightarrow> workload_entry" where
  "new_member a =
     \<lparr>member_login = login a, member_avatar_url = avatar_url a,
      activeIssues = 0, upcomingIssues = 0, overdueIssues = 0, totalWorkload = 0\<rparr>"

text \<open>\<^verbatim>\<open>event.endDate && event.endDate < now\<close> and \<^verbatim>\<open>event.startDate > now\<close>.\<close>

definition is_overdue :: "int \<Rightarrow> calendar_event \<Rightarrow> bool" where
  "is_overdue now event =
     (case endDate event of None \<Rightarrow> False | Some d \<Rightarrow> date_lt d (Instant now))"

definition is_upcoming :: "int \<Rightarrow> calendar_event \<Rightarrow> bool" where
  "is_upcoming now event = date_gt (startDate event) (Instant now)"

definition count_member :: "int \<Rightarrow> calendar_event \<Rightarrow> workload_entry \<Rightarrow> workload_entry" where
  "count_member now event member =
     member\<lparr>activeIssues := activeIssues member + 1,
            totalWorkload := totalWorkload member + 1,
            overdueIssues := (if is_overdue now event then overdueIssues member + 1
                              else overdueIssues member),
            upcomingIssues := (if is_upcoming now event then upcomingIssues member + 1
                               else upcomingIssues member)\<rparr>"

text \<open>
  The callback of \<^verbatim>\<open>event.assignees.forEach\<close> (lines 395-420). When the login names a
  member of \<^verbatim>\<open>Object.prototype\<close>, the test \<^verbatim>\<open>!teamWorkload[assignee.login]\<close> is false
  although \<^verbatim>\<open>teamWorkload\<close> has no such entry, \<^verbatim>\<open>member\<close> is the inherited value, and the
  increments are stored on that value: \<^verbatim>\<open>teamWorkload\<close> itself keeps its properties.
  Otherwise the entry is created when it is missing, and then updated in place.
\<close>

definition countAssignee ::
  "int \<Rightarrow> calendar_event \<Rightarrow> team_workload \<Rightarrow> assignee \<Rightarrow> team_workload" where
  "countAssignee now event teamWorkload a =
     (if login a \<in> set Object_prototype_names then teamWorkload
      else
        (let tw = (if map_of teamWorkload (login a) = None
                   then teamWorkload @ [(login a, new_member a)] else teamWorkload)
         in map (\<lambda>(k, member). if k = login a then (k, count_member now event member)
                                else (k, member)) tw))"

text \<open>The callback of \<^verbatim>\<open>events.forEach\<close> (lines 392-421).\<close>

definition countEvent :: "int \<Rightarrow> team_workload \<Rightarrow> calendar_event \<Rightarrow> team_workload" where
  "countEvent now teamWorkload event =
     (if status event = ''closed'' then teamWorkload
      else foldl (countAssignee now event) teamWorkload (event_assignees event))"

definition teamWorkload :: "int \<Rightarrow> calendar_event list \<Rightarrow> team_workload" where
  "teamWorkload now events = foldl (countEvent now) [] events"

text \<open>
  \<^verbatim>\<open>Object.values\<close> lists the own properties in the order of the language: first the keys
  that are array indices (the canonical decimal form of an integer below \<open>2\<^sup>3\<^sup>2 - 1\<close>) in
  ascending numeric order, then the other string keys in creation order.
\<close>

definition is_digit :: "char \<Rightarrow> bool" where
  "is_digit c = (48 \<le> (of_char c :: nat) \<and> (of_char c :: nat) \<le> 57)"

definition int_of_digits :: "string \<Rightarrow> int" where
  "int_of_digits s = foldl (\<lambda>acc c. 10 * acc + ((of_char c :: int) - 48)) 0 s"

definition is_array_index :: "string \<Rightarrow> bool" where
  "is_array_index k =
     (k \<noteq> [] \<and> list_all is_digit k \<and> (k = ''0'' \<or> hd k \<noteq> CHR ''0'')
      \<and> int_of_digits k < 4294967295)"

definition Object_values :: "(string \<times> 'v) list \<Rightarrow> 'v list" where
  "Object_values obj =
     map snd (sort_key (\<lambda>kv. int_of_digits (fst kv)) (filter (\<lambda>kv. is_array_index (fst kv)) obj))
     @ map snd (filter (\<lambda>kv. \<not> is_array_index (fst kv)) obj)"

text \<open>
  \<^verbatim>\<open>Array.prototype.sort\<close> is stable; with the comparator
  \<^verbatim>\<open>(a, b) => a.totalWorkload - b.totalWorkload\<close> it is the stable sort by that key.
\<close>

definition analyzeTeamWorkload :: "int \<Rightarrow> calendar_event list \<Rightarrow> workload_entry list" where
  "analyzeTeamWorkload now events =
     sort_key totalWorkload (Object_values (teamWorkload now events))"

section \<open>The tool-call handler\<close>

datatype error = Error (message: string) | TypeError (message: string) | RangeError (message: string)

datatype content_block = TextContent string | UIResource string string

record tool_result =
  result_content :: "content_block list"
  isError :: bool

text \<open>
  The case \<^verbatim>\<open>find_best_assignee\<close> (lines 1284-1319) once the events are fetched.
  \<open>bestAssigneeText\<close> is the template literal of the text block, \<open>createBestAssigneeUI\<close> the
  HTML renderer and \<open>stamp\<close> the value of \<^verbatim>\<open>Date.now()\<close> in the resource address.
\<close>

definition bestAssigneeText :: "workload_entry \<Rightarrow> string" where
  "bestAssigneeText bestAssignee =
     ''# Best Assignee Recommendation\<newline>\<newline>'' @
     ''**'' @ member_login bestAssignee @ ''** has the lightest workload:\<newline>'' @
     ''- Current workload: '' @ show_nat (totalWorkload bestAssignee) @ '' issues\<newline>'' @
     ''- Active: '' @ show_nat (activeIssues bestAssignee) @ ''\<newline>'' @
     ''- Upcoming: '' @ show_nat (upcomingIssues bestAssignee) @ ''\<newline>'' @
     ''- Overdue: '' @ show_nat (overdueIssues bestAssignee)"

definition find_best_assignee ::
  "(workload_entry \<Rightarrow> workload_entry list \<Rightarrow> string) \<Rightarrow> nat \<Rightarrow> int \<Rightarrow> calendar_event list
     \<Rightarrow> tool_result" where
  "find_best_assignee createBestAssigneeUI stamp now events =
     (let workloadAnalysis = analyzeTeamWorkload now events in
      case workloadAnalysis of
        [] \<Rightarrow> \<lparr>result_content = [TextContent ''No team members found in the current project.''],
               isError = False\<rparr>
      | bestAssignee # _ \<Rightarrow>
          \<lparr>result_content =
             [TextContent (bestAssigneeText bestAssignee),
              UIResource (''ui://best-assignee/'' @ show_nat stamp)
                (createBestAssigneeUI bestAssignee workloadAnalysis)],
           isError = False\<rparr>)"

text \<open>
  The handler of \<^verbatim>\<open>CallToolRequestSchema\<close> (lines 1190-1397). The bodies of the five cases
  are arguments: each maps the request arguments to the result it returns or to the error it
  throws. The \<^verbatim>\<open>switch\<close> with its \<^verbatim>\<open>default\<close> and the enclosing \<^verbatim>\<open>try\<close>/\<^verbatim>\<open>catch\<close> are
  as in the source.
\<close>

record 'a tool_bodies =
  get_team_status_case :: "'a \<Rightarrow> error + tool_result"
  get_person_schedule_case :: "'a \<Rightarrow> error + tool_result"
  analyze_workload_case :: "'a \<Rightarrow> error + tool_result"
  find_best_assignee_case :: "'a \<Rightarrow> error + tool_result"
  get_calendar_events_case :: "'a \<Rightarrow> error + tool_result"

definition switch_tool :: "'a tool_bodies \<Rightarrow> string \<Rightarrow> 'a \<Rightarrow> error + tool_result" where
  "switch_tool bodies name args =
     (if name = ''get_team_status'' then get_team_status_case bodies args
      else if name = ''get_person_schedule'' then get_person_schedule_case bodies args
      else if name = ''analyze_workload'' then analyze_workload_case bodies args
      else if name = ''find_best_assignee'' then find_best_assignee_case bodies args
      else if name = ''get_calendar_events'' then get_calendar_events_case bodies args
      else Inl (Error (''Unknown tool: '' @ name)))"

definition callTool :: "'a tool_bodies \<Rightarrow> string \<Rightarrow> 'a \<Rightarrow> tool_result" where
  "callTool bodies name args =
     (case switch_tool bodies name args of
        Inr result \<Rightarrow> result
      | Inl err \<Rightarrow> \<lparr>result_content = [TextContent (''Error: '' @ message err)], isError = True\<rparr>)"

definition tool_names :: "string list" where
  "tool_names = [''get_team_status'', ''get_person_schedule'', ''analyze_workload'',
                 ''find_best_assignee'', ''get_calendar_events'']"

section \<open>Dates of the runtime and of date-fns\<close>

text \<open>
  The calendar functions are not code of the repository: they belong to the JavaScript runtime
  and to the library date-fns, which index.js imports (the version is not pinned; the
  behaviour of release 4 is followed). They read a time value in the local time zone of the
  process. The zone is modelled by a fixed offset \<open>off\<close>, the local time minus UTC in
  milliseconds; the calendar is the proleptic Gregorian one. A zone whose offset changes with
  daylight saving is outside this model: there a local day is not always 86400000 ms long.
\<close>

definition msPerDay :: int where
  "msPerDay = 86400000"

definition localDay :: "int \<Rightarrow> int \<Rightarrow> int" where
  "localDay off t = (t + off) div msPerDay"

text \<open>Year, month (1 to 12) and day of the month of a day number counted from 1970-01-01.\<close>

definition civil_from_days :: "int \<Rightarrow> int \<times> int \<times> int" where
  "civil_from_days z0 =
     (let z = z0 + 719468;
          era = z div 146097;
          doe = z - era * 146097;
          yoe = (doe - doe div 1460 + doe div 36524 - doe div 146096) div 365;
          y = yoe + era * 400;
          doy = doe - (365 * yoe + yoe div 4 - yoe div 100);
          mp = (5 * doy + 2) div 153;
          d = doy - (153 * mp + 2) div 5 + 1;
          m = (if mp < 10 then mp + 3 else mp - 9)
      in (if m \<le> 2 then y + 1 else y, m, d))"

text \<open>The day number of a calendar date (month 1 to 12).\<close>

definition days_from_civil :: "int \<Rightarrow> int \<Rightarrow> int \<Rightarrow> int" where
  "days_from_civil y0 m d =
     (let y = (if m \<le> 2 then y0 - 1 else y0);
          era = y div 400;
          yoe = y - era * 400;
          mp = (m + 9) mod 12;
          doy = (153 * mp + 2) div 5 + d - 1;
          doe = yoe * 365 + yoe div 4 - yoe div 100 + doy
      in era * 146097 + doe - 719468)"

definition getFullYear :: "int \<Rightarrow> int \<Rightarrow> int" where
  "getFullYear off t = fst (civil_from_days (localDay off t))"

text \<open>\<^verbatim>\<open>getMonth\<close> counts from 0.\<close>

definition getMonth :: "int \<Rightarrow> int \<Rightarrow> int" where
  "getMonth off t = fst (snd (civil_from_days (localDay off t))) - 1"

definition getDate :: "int \<Rightarrow> int \<Rightarrow> int" where
  "getDate off t = snd (snd (civil_from_days (localDay off t)))"

definition isLeapYear :: "int \<Rightarrow> bool" where
  "isLeapYear y = (y mod 4 = 0 \<and> (y mod 100 \<noteq> 0 \<or> y mod 400 = 0))"

definition daysInMonth :: "int \<Rightarrow> int \<Rightarrow> int" where
  "daysInMonth y month =
     (if month = 1 then (if isLeapYear y then 29 else 28)
      else if month = 3 \<or> month = 5 \<or> month = 8 \<or> month = 10 then 30 else 31)"

text \<open>\<^verbatim>\<open>date.setHours(0, 0, 0, 0)\<close>.\<close>

definition startOfDay :: "int \<Rightarrow> int \<Rightarrow> int" where
  "startOfDay off t = localDay off t * msPerDay - off"

text \<open>\<^verbatim>\<open>startOfMonth\<close>: \<^verbatim>\<open>date.setDate(1); date.setHours(0, 0, 0, 0)\<close>.\<close>

definition startOfMonth :: "int \<Rightarrow> int \<Rightarrow> int" where
  "startOfMonth off t = (localDay off t - (getDate off t - 1)) * msPerDay - off"

text \<open>
  \<^verbatim>\<open>endOfMonth\<close>: \<^verbatim>\<open>date.setFullYear(year, month + 1, 0); date.setHours(23, 59, 59, 999)\<close>,
  the last millisecond of the last day of the month.
\<close>

definition endOfMonth :: "int \<Rightarrow> int \<Rightarrow> int" where
  "endOfMonth off t =
     (localDay off t - (getDate off t - 1) + daysInMonth (getFullYear off t) (getMonth off t))
       * msPerDay - 1 - off"

text \<open>
  \<^verbatim>\<open>eachDayOfInterval\<close>: the loop pushes the date and moves it to the start of the next day
  while it is not after the end. An interval whose start is after its end is walked from its
  end and the result is reversed.
\<close>

function eachDay_loop :: "int \<Rightarrow> int \<Rightarrow> int list" where
  "eachDay_loop date endTime =
     (if date \<le> endTime then date # eachDay_loop (date + msPerDay) endTime else [])"
  by pat_completeness auto
termination
  by (relation "measure (\<lambda>(date, endTime). nat (endTime - date + 1))") (auto simp add: msPerDay_def)

declare eachDay_loop.simps [simp del]

definition eachDayOfInterval :: "int \<Rightarrow> int \<Rightarrow> int \<Rightarrow> int list" where
  "eachDayOfInterval off start end' =
     (let reversed = (start > end');
          endTime = (if reversed then start else end');
          date = startOfDay off (if reversed then end' else start);
          dates = eachDay_loop date endTime
      in if reversed then rev dates else dates)"

text \<open>\<^verbatim>\<open>isSameMonth(event.startDate, currentDate)\<close>; the fields of an invalid date are NaN.\<close>

fun isSameMonth :: "int \<Rightarrow> jsdate \<Rightarrow> int \<Rightarrow> bool" where
  "isSameMonth off InvalidDate b = False"
| "isSameMonth off (Instant a) b =
     (getFullYear off a = getFullYear off b \<and> getMonth off a = getMonth off b)"

text \<open>\<^verbatim>\<open>format(date, 'yyyy-MM-dd')\<close> on a valid date.\<close>

definition addLeadingZeros :: "nat \<Rightarrow> nat \<Rightarrow> string" where
  "addLeadingZeros n targetLength =
     replicate (targetLength - length (show_nat n)) (CHR ''0'') @ show_nat n"

definition format_day :: "int \<Rightarrow> string" where
  "format_day dayNumber =
     (case civil_from_days dayNumber of
        (signedYear, m, d) \<Rightarrow>
          addLeadingZeros (nat (if signedYear > 0 then signedYear else 1 - signedYear)) 4
          @ ''-'' @ addLeadingZeros (nat m) 2 @ ''-'' @ addLeadingZeros (nat d) 2)"

definition format_yyyy_MM_dd :: "int \<Rightarrow> int \<Rightarrow> string" where
  "format_yyyy_MM_dd off t = format_day (localDay off t)"

text \<open>
  \<^verbatim>\<open>new Date(string)\<close> on the date-only form \<^verbatim>\<open>YYYY-MM-DD\<close> of a date that exists: midnight
  UTC of that day. The runtime decides about every other string on its own; \<open>newDate\<close> is used
  on strings of this form only, and answers \<open>InvalidDate\<close> elsewhere.
\<close>

definition newDate :: "string \<Rightarrow> jsdate" where
  "newDate s =
     (if length s = 10 \<and> s ! 4 = CHR ''-'' \<and> s ! 7 = CHR ''-''
         \<and> list_all is_digit (take 4 s @ take 2 (drop 5 s) @ drop 8 s)
      then (let y = int_of_digits (take 4 s);
                m = int_of_digits (take 2 (drop 5 s));
                d = int_of_digits (drop 8 s)
            in if 1 \<le> m \<and> m \<le> 12 \<and> 1 \<le> d \<and> d \<le> daysInMonth y (m - 1)
               then Instant (days_from_civil y m d * msPerDay) else InvalidDate)
      else InvalidDate)"

section \<open>createCalendarUI: grouping the events by day\<close>

text \<open>\<^verbatim>\<open>event.endDate && event.startDate.getTime() !== event.endDate.getTime()\<close>.\<close>

definition isMultiDay :: "calendar_event \<Rightarrow> bool" where
  "isMultiDay event =
     (case endDate event of None \<Rightarrow> False | Some ed \<Rightarrow> getTime_differs (startDate event) ed)"

text \<open>
  The array \<^verbatim>\<open>eventDates\<close> of one event (lines 435-451). \<open>eventStart\<close> and \<open>eventEnd\<close> are the
  two conditional expressions of lines 439-440; a comparison with an invalid date is false, so
  it selects the bound of the month.
\<close>

definition eventStart :: "calendar_event \<Rightarrow> int \<Rightarrow> int" where
  "eventStart event monthStart =
     (case startDate event of
        Instant s \<Rightarrow> if s > monthStart then s else monthStart
      | InvalidDate \<Rightarrow> monthStart)"

definition eventEnd :: "calendar_event \<Rightarrow> int \<Rightarrow> int" where
  "eventEnd event monthEnd =
     (case endDate event of
        Some (Instant t) \<Rightarrow> if t < monthEnd then t else monthEnd
      | _ \<Rightarrow> monthEnd)"

definition eventDates :: "int \<Rightarrow> int \<Rightarrow> calendar_event \<Rightarrow> int list" where
  "eventDates off currentDate event =
     (let monthStart = startOfMonth off currentDate;
          monthEnd = endOfMonth off currentDate
      in if isMultiDay event then
           (if eventStart event monthStart \<le> monthEnd \<and> eventEnd event monthEnd \<ge> monthStart
            then eachDayOfInterval off (eventStart event monthStart) (eventEnd event monthEnd)
            else [])
         else
           (case startDate event of
              Instant s \<Rightarrow> if isSameMonth off (Instant s) currentDate then [s] else []
            | InvalidDate \<Rightarrow> []))"

text \<open>
  \<^verbatim>\<open>eventsByDate\<close> is a dictionary from day key to the array of events of that day (lines
  453-459); \<open>dayEvents\<close> is the read \<^verbatim>\<open>eventsByDate[dateKey] || []\<close> of line 480.
\<close>

definition pushEvent ::
  "int \<Rightarrow> calendar_event \<Rightarrow> (string \<rightharpoonup> calendar_event list) \<Rightarrow> int
     \<Rightarrow> (string \<rightharpoonup> calendar_event list)" where
  "pushEvent off event byDate date =
     (let dateKey = format_yyyy_MM_dd off date
      in byDate(dateKey \<mapsto> (case byDate dateKey of None \<Rightarrow> [] | Some es \<Rightarrow> es) @ [event]))"

definition addEvent ::
  "int \<Rightarrow> int \<Rightarrow> (string \<rightharpoonup> calendar_event list) \<Rightarrow> calendar_event
     \<Rightarrow> (string \<rightharpoonup> calendar_event list)" where
  "addEvent off currentDate byDate event =
     foldl (pushEvent off event) byDate (eventDates off currentDate event)"

definition eventsByDate :: "int \<Rightarrow> int \<Rightarrow> calendar_event list \<Rightarrow> (string \<rightharpoonup> calendar_event list)" where
  "eventsByDate off currentDate events = foldl (addEvent off currentDate) Map.empty events"

definition dayEvents :: "(string \<rightharpoonup> calendar_event list) \<Rightarrow> string \<Rightarrow> calendar_event list" where
  "dayEvents byDate dateKey = (case byDate dateKey of None \<Rightarrow> [] | Some es \<Rightarrow> es)"

section \<open>fetchProjectItems and its two data paths\<close>

text \<open>
  The upstream is the GitHub API behind Octokit. Each awaited request settles with a response
  or is rejected with an error; the upstream is modelled by the replies it gives to the
  successive requests of each kind. A request with no reply left never settles, and the function
  that awaits it does not return: its result is \<open>None\<close>.
\<close>

datatype 'a settled = Rejected error | Fulfilled 'a

record gql_field_value =
  gfv_field_name :: "string option"
  gfv_date :: "string option"
  gfv_text :: "string option"
  gfv_name :: "string option"
  gfv_number :: "int option"

record gql_node =
  node_id :: string
  node_type :: string
  node_content :: "issue option"
  node_fieldValues :: "gql_field_value list"

record gql_project =
  nodes :: "gql_node list"
  hasNextPage :: bool
  endCursor :: "string option"

text \<open>
  A GraphQL response: \<^verbatim>\<open>response.organization\<close> is \<^verbatim>\<open>null\<close>, or its \<^verbatim>\<open>projectV2\<close> is
  \<^verbatim>\<open>null\<close>, or the project is there.
\<close>

datatype gql_response = NoOrganization | NoProject | Project gql_project

record search_item =
  search_id :: nat
  search_issue :: issue

record upstream =
  graphql_replies :: "gql_response settled list"
  search_replies :: "search_item list settled list"

definition DEFAULT_LABEL :: string where
  "DEFAULT_LABEL = ''area: devrel-opensource''"

definition perPage :: nat where
  "perPage = 100"

text \<open>\<^verbatim>\<open>value || null\<close> on a string and on a number.\<close>

definition or_null :: "string option \<Rightarrow> string option" where
  "or_null v = (if truthy v then v else None)"

definition number_or_null :: "int option \<Rightarrow> int option" where
  "number_or_null v = (if v = Some 0 then None else v)"

text \<open>The filter of lines 169-182 and the reshaping of lines 185-228.\<close>

definition keepNode :: "(string \<Rightarrow> jsdate) \<Rightarrow> jsdate \<Rightarrow> gql_node \<Rightarrow> bool" where
  "keepNode parse since item =
     (case node_content item of
        None \<Rightarrow> False
      | Some c \<Rightarrow>
          node_type item = ''ISSUE''
          \<and> list_ex (\<lambda>l. label_name l = DEFAULT_LABEL) (labels c)
          \<and> date_ge (parse (created_at c)) since)"

definition transformNode :: "gql_node \<Rightarrow> project_item list" where
  "transformNode item =
     (case node_content item of
        None \<Rightarrow> []
      | Some c \<Rightarrow>
          [\<lparr>item_id = node_id item,
            content = c\<lparr>body := Some (str_of (body c)), state := toLowerCase (state c)\<rparr>,
            fieldValues =
              map (\<lambda>fieldValue.
                     \<lparr>fv_field_name = str_of (gfv_field_name fieldValue),
                      fv_date = or_null (gfv_date fieldValue),
                      fv_text = or_null (gfv_text fieldValue),
                      fv_name = or_null (gfv_name fieldValue),
                      fv_number = number_or_null (gfv_number fieldValue)\<rparr>)
                  (node_fieldValues item)\<rparr>])"

text \<open>
  The loop of \<^verbatim>\<open>fetchProjectItemsGraphQL\<close> (lines 154-234), one reply per turn. It returns
  what the function returns or throws, and the replies not yet consumed. The error text of a
  read through a \<^verbatim>\<open>null\<close> organization is the runtime's.
\<close>

fun fetchProjectItemsGraphQL_loop ::
  "(string \<Rightarrow> jsdate) \<Rightarrow> string \<Rightarrow> nat \<Rightarrow> jsdate \<Rightarrow> project_item list
     \<Rightarrow> gql_response settled list
     \<Rightarrow> ((error + project_item list) \<times> gql_response settled list) option" where
  "fetchProjectItemsGraphQL_loop parse org projectNumber since allItems [] = None"
| "fetchProjectItemsGraphQL_loop parse org projectNumber since allItems (Rejected e # rest) =
     Some (Inl e, rest)"
| "fetchProjectItemsGraphQL_loop parse org projectNumber since allItems (Fulfilled NoOrganization # rest) =
     Some (Inl (TypeError ''Cannot read properties of null''), rest)"
| "fetchProjectItemsGraphQL_loop parse org projectNumber since allItems (Fulfilled NoProject # rest) =
     Some (Inl (Error (''Project '' @ show_nat projectNumber @ '' not found for organization '' @ org)),
           rest)"
| "fetchProjectItemsGraphQL_loop parse org projectNumber since allItems (Fulfilled (Project p) # rest) =
     (let allItems' = allItems @ concat (map transformNode (filter (keepNode parse since) (nodes p)))
      in if hasNextPage p
         then fetchProjectItemsGraphQL_loop parse org projectNumber since allItems' rest
         else Some (Inr allItems', rest))"

definition fetchProjectItemsGraphQL ::
  "(string \<Rightarrow> jsdate) \<Rightarrow> string \<Rightarrow> nat \<Rightarrow> jsdate \<Rightarrow> gql_response settled list
     \<Rightarrow> ((error + project_item list) \<times> gql_response settled list) option" where
  "fetchProjectItemsGraphQL parse org projectNumber since replies =
     fetchProjectItemsGraphQL_loop parse org projectNumber since [] replies"

text \<open>The object built for each search hit (lines 262-297).\<close>

definition searchItem :: "search_item \<Rightarrow> project_item" where
  "searchItem hit =
     \<lparr>item_id = show_nat (search_id hit),
      content = (search_issue hit)\<lparr>body := Some (str_of (body (search_issue hit)))\<rparr>,
      fieldValues = []\<rparr>"

text \<open>
  The loop of \<^verbatim>\<open>fetchIssuesByLabel\<close> (lines 247-308). Its whole body is inside
  \<^verbatim>\<open>try\<close>; the \<^verbatim>\<open>catch\<close> logs the error and leaves the loop, and the function returns the
  items collected so far. The function has no way to throw, so its result carries no error.
\<close>

fun fetchIssuesByLabel_loop ::
  "project_item list \<Rightarrow> search_item list settled list
     \<Rightarrow> (project_item list \<times> search_item list settled list) option" where
  "fetchIssuesByLabel_loop allItems [] = None"
| "fetchIssuesByLabel_loop allItems (Rejected searchError # rest) = Some (allItems, rest)"
| "fetchIssuesByLabel_loop allItems (Fulfilled hits # rest) =
     (if length hits = 0 then Some (allItems, rest)
      else (let allItems' = allItems @ map searchItem hits
            in if length hits = perPage then fetchIssuesByLabel_loop allItems' rest
               else Some (allItems', rest)))"

text \<open>
  The query string of the first request calls \<^verbatim>\<open>since.toISOString()\<close>, which throws a
  \<^verbatim>\<open>RangeError\<close> on an invalid date; that happens inside the \<^verbatim>\<open>try\<close> as well, before any
  request is sent.
\<close>

definition fetchIssuesByLabel ::
  "string \<Rightarrow> jsdate \<Rightarrow> search_item list settled list
     \<Rightarrow> (project_item list \<times> search_item list settled list) option" where
  "fetchIssuesByLabel org since replies =
     (case since of
        InvalidDate \<Rightarrow> Some ([], replies)
      | Instant t \<Rightarrow> fetchIssuesByLabel_loop [] replies)"

text \<open>
  \<^verbatim>\<open>fetchProjectItems\<close> (lines 137-147). \<open>sinceOrDefault\<close> is
  \<^verbatim>\<open>sinceDate || new Date('2025-08-01')\<close>, where \<^verbatim>\<open>sinceDate\<close> may be \<^verbatim>\<open>undefined\<close>. The
  result is what the function returns (\<open>Inr\<close>) or throws (\<open>Inl\<close>), with the upstream left
  behind.
\<close>

definition sinceOrDefault :: "(string \<Rightarrow> jsdate) \<Rightarrow> jsdate option \<Rightarrow> jsdate" where
  "sinceOrDefault parse sinceDate =
     (case sinceDate of Some d \<Rightarrow> d | None \<Rightarrow> parse ''2025-08-01'')"

definition fetchProjectItems ::
  "(string \<Rightarrow> jsdate) \<Rightarrow> upstream \<Rightarrow> string \<Rightarrow> nat \<Rightarrow> jsdate option
     \<Rightarrow> ((error + project_item list) \<times> upstream) option" where
  "fetchProjectItems parse up org projectNumber sinceDate =
     (let since = sinceOrDefault parse sinceDate in
      case fetchProjectItemsGraphQL parse org projectNumber since (graphql_replies up) of
        None \<Rightarrow> None
      | Some (Inr items, g) \<Rightarrow> Some (Inr items, up\<lparr>graphql_replies := g\<rparr>)
      | Some (Inl graphqlError, g) \<Rightarrow>
          (case fetchIssuesByLabel org since (search_replies up) of
             None \<Rightarrow> None
           | Some (items, s) \<Rightarrow> Some (Inr items, \<lparr>graphql_replies = g, search_replies = s\<rparr>)))"

section \<open>Vocabulary of the properties\<close>

text \<open>
  A field value supplies the start slot when the first branch of the callback takes it, and the
  end slot when the second branch takes it (which the first one then did not).
\<close>

definition is_start_field :: "field_value \<Rightarrow> bool" where
  "is_start_field fv =
     (str_includes (toLowerCase (fv_field_name fv)) ''start'' \<and> truthy (fv_date fv))"

definition is_end_field :: "field_value \<Rightarrow> bool" where
  "is_end_field fv =
     (\<not> is_start_field fv
      \<and> (str_includes (toLowerCase (fv_field_name fv)) ''end''
           \<or> str_includes (toLowerCase (fv_field_name fv)) ''due'')
      \<and> truthy (fv_date fv))"

definition field_date :: "(string \<Rightarrow> jsdate) \<Rightarrow> field_value \<Rightarrow> jsdate" where
  "field_date parse fv = parse (str_of (fv_date fv))"

definition date_field :: "string \<Rightarrow> string \<Rightarrow> field_value" where
  "date_field n d =
     \<lparr>fv_field_name = n, fv_date = Some d, fv_text = None, fv_name = None, fv_number = None\<rparr>"

definition plain_issue :: "string option \<Rightarrow> issue" where
  "plain_issue b =
     \<lparr>number = 7, title = ''Workshop'', body = b, state = ''open'',
      created_at = ''2025-08-15'', html_url = ''https://github.com/squareup/devrel/issues/7'',
      labels = [], assignees = [], milestone = None\<rparr>"

text \<open>An item with two start fields and two end fields, in this order.\<close>

definition item_with_repeated_fields :: project_item where
  "item_with_repeated_fields =
     \<lparr>item_id = ''PVTI_1'', content = plain_issue None,
      fieldValues = [date_field ''Start date'' ''2025-09-01'', date_field ''End date'' ''2025-09-10'',
                     date_field ''Revised start'' ''2025-09-05'', date_field ''Due'' ''2025-09-12'']\<rparr>"

text \<open>An item without field values whose body carries both markers.\<close>

definition item_with_body_markers :: project_item where
  "item_with_body_markers =
     \<lparr>item_id = ''PVTI_2'',
      content = plain_issue
        (Some ''**Start Date:** foo (2025-09-01)\<newline>**End Date:** bar (2025-09-10)''),
      fieldValues = []\<rparr>"

text \<open>
  The assignments that the aggregation visits: the pairs of a non-closed event and one of its
  assignees, in the order of the two nested \<^verbatim>\<open>forEach\<close> loops. The three counts are the
  numbers that the claims give for a login.
\<close>

definition assignments :: "calendar_event list \<Rightarrow> (calendar_event \<times> assignee) list" where
  "assignments events =
     concat (map (\<lambda>event. if status event = ''closed'' then []
                           else map (Pair event) (event_assignees event)) events)"

definition active_count :: "string \<Rightarrow> calendar_event list \<Rightarrow> nat" where
  "active_count l events = length (filter (\<lambda>(event, a). login a = l) (assignments events))"

definition overdue_count :: "int \<Rightarrow> string \<Rightarrow> calendar_event list \<Rightarrow> nat" where
  "overdue_count now l events =
     length (filter (\<lambda>(event, a). login a = l \<and> is_overdue now event) (assignments events))"

definition upcoming_count :: "int \<Rightarrow> string \<Rightarrow> calendar_event list \<Rightarrow> nat" where
  "upcoming_count now l events =
     length (filter (\<lambda>(event, a). login a = l \<and> is_upcoming now event) (assignments events))"

text \<open>The elements of a list in the order of their first occurrence.\<close>

fun first_occurrences :: "'a list \<Rightarrow> 'a list" where
  "first_occurrences [] = []"
| "first_occurrences (x # xs) = x # filter (\<lambda>y. y \<noteq> x) (first_occurrences xs)"

text \<open>
  The encounter order of the logins: the logins of the assignments in the order in which the
  aggregation meets each of them for the first time (the names of \<^verbatim>\<open>Object.prototype\<close>, which
  get no entry, left out).
\<close>

definition encountered_logins :: "calendar_event list \<Rightarrow> string list" where
  "encountered_logins events =
     first_occurrences (filter (\<lambda>l. l \<notin> set Object_prototype_names)
                          (map (\<lambda>(event, a). login a) (assignments events)))"

definition countPairs :: "int \<Rightarrow> (calendar_event \<times> assignee) list \<Rightarrow> team_workload" where
  "countPairs now pairs = foldl (\<lambda>tw (event, a). countAssignee now event tw a) [] pairs"

definition entry_ok ::
  "int \<Rightarrow> (calendar_event \<times> assignee) list \<Rightarrow> string \<Rightarrow> workload_entry \<Rightarrow> bool" where
  "entry_ok now pairs k m =
     (member_login m = k
      \<and> activeIssues m = length (filter (\<lambda>(event, a). login a = k) pairs)
      \<and> totalWorkload m = length (filter (\<lambda>(event, a). login a = k) pairs)
      \<and> overdueIssues m = length (filter (\<lambda>(event, a). login a = k \<and> is_overdue now event) pairs)
      \<and> upcomingIssues m
          = length (filter (\<lambda>(event, a). login a = k \<and> is_upcoming now event) pairs))"

text \<open>Sample events: status, logins of the assignees, start and end.\<close>

definition sample_event ::
  "string \<Rightarrow> string list \<Rightarrow> jsdate \<Rightarrow> jsdate option \<Rightarrow> calendar_event" where
  "sample_event st logins s e =
     \<lparr>event_id = ''7'', event_title = ''Workshop'', startDate = s, endDate = e,
      url = ''https://github.com/squareup/devrel/issues/7'', event_labels = [],
      event_assignees = map (\<lambda>l. \<lparr>login = l, avatar_url = []\<rparr>) logins,
      status = st, projectStatus = None, event_type = ''issue''\<rparr>"

text \<open>Five open events of bob followed by two open events of alice.\<close>

definition events_bob5_alice2 :: "calendar_event list" where
  "events_bob5_alice2 =
     replicate 5 (sample_event ''open'' [''bob''] (Instant 1756684800000) None)
     @ replicate 2 (sample_event ''open'' [''alice''] (Instant 1756684800000) None)"

text \<open>An open event of bob followed by an open event of the user whose login is 42.\<close>

definition events_bob_then_42 :: "calendar_event list" where
  "events_bob_then_42 =
     [sample_event ''open'' [''bob''] (Instant 1756684800000) None,
      sample_event ''open'' [''42''] (Instant 1756684800000) None]"

text \<open>One open event assigned to the user whose login is constructor.\<close>

definition events_constructor :: "calendar_event list" where
  "events_constructor = [sample_event ''open'' [''constructor''] (Instant 1756684800000) None]"

text \<open>
  Four events of alice, seen at 1756684800000 ms (2025-09-01): three are open, of which one
  starts later and none has ended, and one is closed (and ended before).
\<close>

definition events_alice :: "calendar_event list" where
  "events_alice =
     [sample_event ''open'' [''alice''] (Instant 1754006400000) None,
      sample_event ''open'' [''alice''] (Instant 1755000000000) (Some (Instant 1759000000000)),
      sample_event ''closed'' [''alice''] (Instant 1754006400000) (Some (Instant 1755000000000)),
      sample_event ''open'' [''alice''] (Instant 1758000000000) None]"

text \<open>
  The day keys of an event, and the test that an event stands under a day key of the grouping
  that \<^verbatim>\<open>createCalendarUI\<close> builds. \<open>dayStart off k\<close> is the local midnight that begins day
  number \<open>k\<close>.
\<close>

definition dateKeys :: "int \<Rightarrow> int \<Rightarrow> calendar_event \<Rightarrow> string list" where
  "dateKeys off currentDate event = map (format_yyyy_MM_dd off) (eventDates off currentDate event)"

definition under_day_key ::
  "int \<Rightarrow> int \<Rightarrow> calendar_event list \<Rightarrow> string \<Rightarrow> calendar_event \<Rightarrow> bool" where
  "under_day_key off currentDate events dateKey event =
     (event \<in> set (dayEvents (eventsByDate off currentDate events) dateKey))"

definition dayStart :: "int \<Rightarrow> int \<Rightarrow> int" where
  "dayStart off k = k * msPerDay - off"

text \<open>
  An event from 2025-08-30 to 2025-09-05 and an event on 2025-09-15 without end (midnights
  UTC, in milliseconds).
\<close>

definition event_0830_0905 :: calendar_event where
  "event_0830_0905 =
     sample_event ''open'' [''alice''] (Instant 1756512000000) (Some (Instant 1757030400000))"

definition event_0915 :: calendar_event where
  "event_0915 = sample_event ''open'' [''alice''] (Instant 1757894400000) None"

text \<open>Sample upstreams and a sample search hit.\<close>

definition sample_hit :: search_item where
  "sample_hit = \<lparr>search_id = 3300000007, search_issue = plain_issue None\<rparr>"

text \<open>Both paths fail at their first request.\<close>

definition upstream_both_fail :: upstream where
  "upstream_both_fail =
     \<lparr>graphql_replies = [Rejected (Error ''Bad credentials'')],
      search_replies = [Rejected (Error ''API rate limit exceeded'')]\<rparr>"

text \<open>
  The project is missing; the search answers a full page and then fails. One more reply of each
  kind is ready, should a request be repeated.
\<close>

definition upstream_partial :: upstream where
  "upstream_partial =
     \<lparr>graphql_replies =
        [Fulfilled NoProject,
         Fulfilled (Project \<lparr>nodes = [], hasNextPage = False, endCursor = None\<rparr>)],
      search_replies =
        [Fulfilled (replicate 100 sample_hit), Rejected (Error ''API rate limit exceeded''),
         Fulfilled [sample_hit]]\<rparr>"

text \<open>
  Bodies of the five cases for the handler: fetching the calendar events throws, the others
  return a report.
\<close>

definition sample_report :: tool_result where
  "sample_report = \<lparr>result_content = [TextContent ''# Team Status Report''], isError = False\<rparr>"

definition sample_bodies :: "unit tool_bodies" where
  "sample_bodies =
     \<lparr>get_team_status_case = (\<lambda>args. Inr sample_report),
      get_person_schedule_case = (\<lambda>args. Inr sample_report),
      analyze_workload_case = (\<lambda>args. Inr sample_report),
      find_best_assignee_case = (\<lambda>args. Inr sample_report),
      get_calendar_events_case = (\<lambda>args. Inl (RangeError ''Invalid time value''))\<rparr>"

text \<open>
  Two items as the fetch delivers them, without field values: the body of the first names the
  start date 2025-09-15 and no end date, the body of the second the start date 2025-08-30 and
  the end date 2025-09-05.
\<close>

definition item_on_0915 :: project_item where
  "item_on_0915 =
     \<lparr>item_id = ''PVTI_3'',
      content = plain_issue (Some ''**Start Date:** Monday (2025-09-15)''),
      fieldValues = []\<rparr>"

definition item_0830_to_0905 :: project_item where
  "item_0830_to_0905 =
     \<lparr>item_id = ''PVTI_4'',
      content = plain_issue
        (Some ''**Start Date:** Saturday (2025-08-30)\<newline>**End Date:** Friday (2025-09-05)''),
      fieldValues = []\<rparr>"

section \<open>Properties of transformToCalendarEvents\<close>

lemma scan_start_step:
  "slot_start (scanFieldValue parse st fv) =
     (if is_start_field fv then Some (field_date parse fv) else slot_start st)"
  by (simp add: scanFieldValue_def is_start_field_def field_date_def Let_def)

lemma scan_end_step:
  "slot_end (scanFieldValue parse st fv) =
     (if is_end_field fv then Some (field_date parse fv) else slot_end st)"
  by (auto simp add: scanFieldValue_def is_start_field_def is_end_field_def field_date_def Let_def)

lemma foldl_scan_start:
  "slot_start (foldl (scanFieldValue parse) st fvs) =
     (case filter is_start_field fvs of
        [] \<Rightarrow> slot_start st
      | f # fs \<Rightarrow> Some (field_date parse (last (f # fs))))"
proof (induction fvs arbitrary: st)
  case Nil
  show ?case by simp
next
  case (Cons fv fvs)
  show ?case
    by (simp add: Cons.IH scan_start_step split: list.splits)
qed

lemma foldl_scan_end:
  "slot_end (foldl (scanFieldValue parse) st fvs) =
     (case filter is_end_field fvs of
        [] \<Rightarrow> slot_end st
      | f # fs \<Rightarrow> Some (field_date parse (last (f # fs))))"
proof (induction fvs arbitrary: st)
  case Nil
  show ?case by simp
next
  case (Cons fv fvs)
  show ?case
    by (simp add: Cons.IH scan_end_step split: list.splits)
qed

lemma scanFieldValues_start:
  "slot_start (scanFieldValues parse fvs) =
     (case filter is_start_field fvs of
        [] \<Rightarrow> None
      | f # fs \<Rightarrow> Some (field_date parse (last (f # fs))))"
  by (simp add: scanFieldValues_def foldl_scan_start no_slots_def split: list.splits)

lemma scanFieldValues_end:
  "slot_end (scanFieldValues parse fvs) =
     (case filter is_end_field fvs of
        [] \<Rightarrow> None
      | f # fs \<Rightarrow> Some (field_date parse (last (f # fs))))"
  by (simp add: scanFieldValues_def foldl_scan_end no_slots_def split: list.splits)

lemma scanBody_start:
  "slot_start (scanBody parse i st) =
     (case slot_start st of
        Some d \<Rightarrow> Some d
      | None \<Rightarrow> map_option parse (startDateMatch (str_of (body i))))"
  by (simp add: scanBody_def Let_def split: option.splits)

lemma scanBody_end:
  "slot_end (scanBody parse i st) =
     (case slot_end st of
        Some d \<Rightarrow> Some d
      | None \<Rightarrow> map_option parse (endDateMatch (str_of (body i))))"
  by (simp add: scanBody_def Let_def split: option.splits)

lemma createdFallback_start:
  "slot_start (createdFallback parse i st) =
     (case slot_start st of Some d \<Rightarrow> Some d | None \<Rightarrow> Some (parse (created_at i)))"
  by (simp add: createdFallback_def split: option.splits)

lemma createdFallback_end: "slot_end (createdFallback parse i st) = slot_end st"
  by (simp add: createdFallback_def)

lemma milestoneFallback_start: "slot_start (milestoneFallback parse i st) = slot_start st"
  by (simp add: milestoneFallback_def split: option.splits)

lemma milestoneFallback_end:
  "slot_end (milestoneFallback parse i st) =
     (case slot_end st of
        Some d \<Rightarrow> Some d
      | None \<Rightarrow> (case milestone i of
                   None \<Rightarrow> None
                 | Some m \<Rightarrow> if truthy (due_on m) then Some (parse (str_of (due_on m))) else None))"
  by (simp add: milestoneFallback_def split: option.splits)

lemma resolveSlots_start:
  "slot_start (resolveSlots parse item) =
     (case slot_start (scanFieldValues parse (fieldValues item)) of
        Some d \<Rightarrow> Some d
      | None \<Rightarrow>
          (case startDateMatch (str_of (body (content item))) of
             Some g \<Rightarrow> Some (parse g)
           | None \<Rightarrow> Some (parse (created_at (content item)))))"
  by (simp add: resolveSlots_def milestoneFallback_start createdFallback_start scanBody_start
      split: option.splits)

lemma resolveSlots_end:
  "slot_end (resolveSlots parse item) =
     (case slot_end (scanFieldValues parse (fieldValues item)) of
        Some d \<Rightarrow> Some d
      | None \<Rightarrow>
          (case endDateMatch (str_of (body (content item))) of
             Some g \<Rightarrow> Some (parse g)
           | None \<Rightarrow>
               (case milestone (content item) of
                  None \<Rightarrow> None
                | Some m \<Rightarrow>
                    if truthy (due_on m) then Some (parse (str_of (due_on m))) else None)))"
  by (simp add: resolveSlots_def milestoneFallback_end createdFallback_end scanBody_end
      split: option.splits)

lemma resolveSlots_start_defined: "slot_start (resolveSlots parse item) \<noteq> None"
  by (simp add: resolveSlots_start split: option.splits)

lemma toEvent_defined: "toEvent parse item \<noteq> None"
  using resolveSlots_start_defined [of parse item]
  by (auto simp add: toEvent_def Let_def split: option.splits)

lemma toEvent_startDate:
  "map_option startDate (toEvent parse item) = slot_start (resolveSlots parse item)"
  by (simp add: toEvent_def Let_def split: option.splits)

lemma toEvent_endDate:
  "map_option endDate (toEvent parse item) = Some (slot_end (resolveSlots parse item))"
  using resolveSlots_start_defined [of parse item]
  by (auto simp add: toEvent_def Let_def split: option.splits)

lemma toEvent_event_id:
  "map_option event_id (toEvent parse item) = Some (show_nat (number (content item)))"
  using resolveSlots_start_defined [of parse item]
  by (auto simp add: toEvent_def Let_def split: option.splits)

lemma map_filter_total:
  "(\<And>x. f x \<noteq> None) \<Longrightarrow> List.map_filter f xs = map (\<lambda>x. the (f x)) xs"
  by (induction xs) (auto split: option.splits)

lemma repeated_fields_start:
  "filter is_start_field (fieldValues item_with_repeated_fields)
     = [date_field ''Start date'' ''2025-09-01'', date_field ''Revised start'' ''2025-09-05'']"
  by code_simp

lemma repeated_fields_end:
  "filter is_end_field (fieldValues item_with_repeated_fields)
     = [date_field ''End date'' ''2025-09-10'', date_field ''Due'' ''2025-09-12'']"
  by code_simp

text \<open>
  Claim C1, as stated, fails. The item \<open>item_with_repeated_fields\<close> has the field values
  "Start date" = 2025-09-01, "End date" = 2025-09-10, "Revised start" = 2025-09-05 and
  "Due" = 2025-09-12. The first field value that matches the start slot carries 2025-09-01
  (1756684800000 ms), yet the event starts on 2025-09-05 (1757030400000 ms): the callback
  assigns \<^verbatim>\<open>startDate\<close> on every match, without testing whether it is already set.
\<close>

theorem C1_first_match_is_overwritten:
  "map_option startDate (toEvent newDate item_with_repeated_fields) = Some (Instant 1757030400000)
   \<and> field_date newDate (hd (filter is_start_field (fieldValues item_with_repeated_fields)))
       = Instant 1756684800000"
  by code_simp

text \<open>
  Claim C1, amended: when the field values of an item contain one or more date-carrying fields
  that match a slot, the last matching field value in iteration order supplies the slot; the
  earlier matches are overwritten, and neither the body nor the creation date nor the milestone
  is consulted for that slot.
\<close>

theorem C1_last_matching_field_supplies_slot:
  "(filter is_start_field (fieldValues item) \<noteq> [] \<longrightarrow>
      map_option startDate (toEvent parse item)
        = Some (field_date parse (last (filter is_start_field (fieldValues item)))))
   \<and> (filter is_end_field (fieldValues item) \<noteq> [] \<longrightarrow>
      map_option endDate (toEvent parse item)
        = Some (Some (field_date parse (last (filter is_end_field (fieldValues item))))))"
  by (simp add: toEvent_startDate toEvent_endDate resolveSlots_start resolveSlots_end
      scanFieldValues_start scanFieldValues_end split: list.splits)

text \<open>
  Witness for C1 (amended): on \<open>item_with_repeated_fields\<close> both slots have two matches; the
  event starts on 2025-09-05 and ends on 2025-09-12, the dates of the last matches.
\<close>

theorem C1_last_matching_field_supplies_slot_witness:
  "filter is_start_field (fieldValues item_with_repeated_fields) \<noteq> []
   \<and> filter is_end_field (fieldValues item_with_repeated_fields) \<noteq> []
   \<and> map_option startDate (toEvent newDate item_with_repeated_fields) = Some (Instant 1757030400000)
   \<and> map_option endDate (toEvent newDate item_with_repeated_fields)
       = Some (Some (Instant 1757635200000))"
proof -
  have d1: "field_date newDate (date_field ''Revised start'' ''2025-09-05'') = Instant 1757030400000"
    by code_simp
  have d2: "field_date newDate (date_field ''Due'' ''2025-09-12'') = Instant 1757635200000"
    by code_simp
  show ?thesis
    using C1_last_matching_field_supplies_slot [of item_with_repeated_fields newDate]
    by (simp add: repeated_fields_start repeated_fields_end d1 d2)
qed

text \<open>
  Claim C4: when no field value supplies the start slot, the start date is the date in
  parentheses after the marker \<^verbatim>\<open>**Start Date:**\<close> of the body if the pattern matches, and
  the creation date of the issue otherwise; when no field value supplies the end slot and the
  pattern of \<^verbatim>\<open>**End Date:**\<close> matches, the end date is the date it captures (otherwise the due
  date of the milestone, if any). In particular the body
  \<^verbatim>\<open>**Start Date:** foo (2025-09-01)\n**End Date:** bar (2025-09-10)\<close> without field values
  gives the start date 2025-09-01 and the end date 2025-09-10.
\<close>

theorem C4_body_markers_then_created_at:
  "(filter is_start_field (fieldValues item) = [] \<longrightarrow>
      map_option startDate (toEvent parse item)
        = Some (case startDateMatch (str_of (body (content item))) of
                  Some g \<Rightarrow> parse g
                | None \<Rightarrow> parse (created_at (content item))))
   \<and> (filter is_end_field (fieldValues item) = [] \<longrightarrow>
      map_option endDate (toEvent parse item)
        = Some (case endDateMatch (str_of (body (content item))) of
                  Some g \<Rightarrow> Some (parse g)
                | None \<Rightarrow>
                    (case milestone (content item) of
                       None \<Rightarrow> None
                     | Some m \<Rightarrow>
                         if truthy (due_on m) then Some (parse (str_of (due_on m))) else None)))
   \<and> (fieldValues item = []
        \<and> body (content item)
            = Some ''**Start Date:** foo (2025-09-01)\<newline>**End Date:** bar (2025-09-10)'' \<longrightarrow>
      map_option startDate (toEvent parse item) = Some (parse ''2025-09-01'')
      \<and> map_option endDate (toEvent parse item) = Some (Some (parse ''2025-09-10'')))"
proof -
  have m1: "startDateMatch ''**Start Date:** foo (2025-09-01)\<newline>**End Date:** bar (2025-09-10)''
              = Some ''2025-09-01''"
    by code_simp
  have m2: "endDateMatch ''**Start Date:** foo (2025-09-01)\<newline>**End Date:** bar (2025-09-10)''
              = Some ''2025-09-10''"
    by code_simp
  show ?thesis
    by (simp add: toEvent_startDate toEvent_endDate resolveSlots_start resolveSlots_end
        scanFieldValues_start scanFieldValues_end m1 m2 split: list.splits option.splits)
qed

text \<open>
  Witness for C4: \<open>item_with_body_markers\<close> has no field values and the body of the scenario;
  with the date constructor on the form \<^verbatim>\<open>YYYY-MM-DD\<close> its event starts at 1756684800000 ms
  (2025-09-01) and ends at 1757462400000 ms (2025-09-10).
\<close>

theorem C4_body_markers_then_created_at_witness:
  "filter is_start_field (fieldValues item_with_body_markers) = []
   \<and> filter is_end_field (fieldValues item_with_body_markers) = []
   \<and> fieldValues item_with_body_markers = []
   \<and> body (content item_with_body_markers)
        = Some ''**Start Date:** foo (2025-09-01)\<newline>**End Date:** bar (2025-09-10)''
   \<and> map_option startDate (toEvent newDate item_with_body_markers) = Some (Instant 1756684800000)
   \<and> map_option endDate (toEvent newDate item_with_body_markers)
       = Some (Some (Instant 1757462400000))"
proof -
  have f: "fieldValues item_with_body_markers = []"
    by (simp add: item_with_body_markers_def)
  have b: "body (content item_with_body_markers)
             = Some ''**Start Date:** foo (2025-09-01)\<newline>**End Date:** bar (2025-09-10)''"
    by (simp add: item_with_body_markers_def plain_issue_def)
  have d1: "newDate ''2025-09-01'' = Instant 1756684800000"
    by code_simp
  have d2: "newDate ''2025-09-10'' = Instant 1757462400000"
    by code_simp
  show ?thesis
    using C4_body_markers_then_created_at [of item_with_body_markers newDate]
    by (simp add: f b d1 d2)
qed

text \<open>
  Claim C10: \<^verbatim>\<open>transformToCalendarEvents\<close> returns exactly one event per input item, in the
  order of the items. The start slot of every item is a \<^verbatim>\<open>Date\<close> object after the fallback to
  the creation date, so the final filter on \<^verbatim>\<open>event.startDate\<close> removes nothing.
\<close>

theorem C10_transform_keeps_every_item:
  "length (transformToCalendarEvents parse items) = length items
   \<and> map event_id (transformToCalendarEvents parse items)
       = map (\<lambda>item. show_nat (number (content item))) items
   \<and> toEvent parse item \<noteq> None"
proof -
  have "map event_id (map (\<lambda>x. the (toEvent parse x)) items)
          = map (\<lambda>item. show_nat (number (content item))) items"
  proof (induction items)
    case Nil
    show ?case by simp
  next
    case (Cons x xs)
    obtain e where e: "toEvent parse x = Some e"
      using toEvent_defined [of parse x] by auto
    have "event_id e = show_nat (number (content x))"
      using toEvent_event_id [of parse x] e by simp
    with Cons e show ?case by simp
  qed
  then show ?thesis
    by (simp add: transformToCalendarEvents_def map_filter_total toEvent_defined)
qed

section \<open>Properties of analyzeTeamWorkload\<close>

lemma set_first_occurrences [simp]: "set (first_occurrences xs) = set xs"
  by (induction xs) auto

lemma distinct_first_occurrences [simp]: "distinct (first_occurrences xs)"
  by (induction xs) auto

lemma filter_first_occurrences:
  "filter P (first_occurrences xs) = first_occurrences (filter P xs)"
proof (induction xs)
  case Nil
  show ?case by simp
next
  case (Cons x xs)
  have swap: "filter P (filter (\<lambda>y. y \<noteq> x) (first_occurrences xs))
          = filter (\<lambda>y. y \<noteq> x) (filter P (first_occurrences xs))"
    by (simp add: conj_commute)
  show ?case
  proof (cases "P x")
    case True
    with Cons swap show ?thesis by simp
  next
    case False
    then have "x \<notin> set (first_occurrences (filter P xs))" by simp
    then have "filter (\<lambda>y. y \<noteq> x) (first_occurrences (filter P xs))
                 = first_occurrences (filter P xs)"
      unfolding filter_id_conv by blast
    with False Cons swap show ?thesis by simp
  qed
qed

lemma first_occurrences_snoc:
  "first_occurrences (xs @ [x]) =
     (if x \<in> set xs then first_occurrences xs else first_occurrences xs @ [x])"
  by (induction xs) auto

lemma foldl_countAssignee_pairs:
  "foldl (countAssignee now event) tw as
     = foldl (\<lambda>tw (event, a). countAssignee now event tw a) tw (map (Pair event) as)"
  by (induction as arbitrary: tw) auto

lemma foldl_countEvent_pairs:
  "foldl (countEvent now) tw events
     = foldl (\<lambda>tw (event, a). countAssignee now event tw a) tw (assignments events)"
proof (induction events arbitrary: tw)
  case Nil
  show ?case by (simp add: assignments_def)
next
  case (Cons e es)
  have "assignments (e # es)
          = (if status e = ''closed'' then [] else map (Pair e) (event_assignees e)) @ assignments es"
    by (simp add: assignments_def)
  then show ?case
    using Cons [of "countEvent now tw e"]
    by (simp add: countEvent_def foldl_countAssignee_pairs)
qed

lemma teamWorkload_pairs: "teamWorkload now events = countPairs now (assignments events)"
  by (simp add: teamWorkload_def countPairs_def foldl_countEvent_pairs)

lemma countPairs_snoc:
  "countPairs now (pairs @ [(event, a)]) = countAssignee now event (countPairs now pairs) a"
  by (simp add: countPairs_def)

lemma keys_update_in_place:
  "map fst (map (\<lambda>(k, member). if k = l then (k, f member) else (k, member)) tw) = map fst tw"
  by (induction tw) auto

lemma keys_countAssignee:
  "map fst (countAssignee now event tw a) =
     (if login a \<in> set Object_prototype_names \<or> login a \<in> set (map fst tw) then map fst tw
      else map fst tw @ [login a])"
proof -
  have n: "(map_of tw (login a) = None) = (login a \<notin> set (map fst tw))"
    by (simp add: map_of_eq_None_iff)
  show ?thesis
    by (auto simp add: countAssignee_def Let_def n split: prod.splits)
qed

lemma keys_countPairs:
  "map fst (countPairs now pairs) =
     first_occurrences (filter (\<lambda>l. l \<notin> set Object_prototype_names)
                          (map (\<lambda>(event, a). login a) pairs))"
proof (induction pairs rule: rev_induct)
  case Nil
  show ?case by (simp add: countPairs_def)
next
  case (snoc p pairs)
  obtain event a where p: "p = (event, a)" by (cases p)
  show ?case
    unfolding p countPairs_snoc keys_countAssignee
    using snoc by (auto simp add: first_occurrences_snoc)
qed

lemma entries_countAssignee:
  assumes "(k, m) \<in> set (countAssignee now event tw a)"
    and "login a \<notin> set Object_prototype_names"
  shows "(k \<noteq> login a \<and> (k, m) \<in> set tw)
         \<or> (k = login a \<and> (\<exists>m0. m = count_member now event m0
               \<and> ((k, m0) \<in> set tw \<or> (login a \<notin> set (map fst tw) \<and> m0 = new_member a))))"
proof -
  let ?tw = "if map_of tw (login a) = None then tw @ [(login a, new_member a)] else tw"
  from assms have "(k, m) \<in> set (map (\<lambda>(k, member). if k = login a
                       then (k, count_member now event member) else (k, member)) ?tw)"
    by (simp add: countAssignee_def Let_def)
  then obtain k0 m0 where km: "(k0, m0) \<in> set ?tw"
    and eq: "(k, m) = (if k0 = login a then (k0, count_member now event m0) else (k0, m0))"
    by auto
  have src: "(k0, m0) \<in> set tw \<or> (login a \<notin> set (map fst tw) \<and> k0 = login a \<and> m0 = new_member a)"
    using km by (auto simp add: map_of_eq_None_iff split: if_splits)
  show ?thesis
  proof (cases "k0 = login a")
    case True
    with eq src show ?thesis by auto
  next
    case False
    with eq src show ?thesis by auto
  qed
qed

lemma entry_ok_other:
  "entry_ok now pairs k m \<Longrightarrow> k \<noteq> login a \<Longrightarrow> entry_ok now (pairs @ [(event, a)]) k m"
  by (simp add: entry_ok_def)

lemma entry_ok_counted:
  "entry_ok now pairs (login a) m0 \<Longrightarrow>
     entry_ok now (pairs @ [(event, a)]) (login a) (count_member now event m0)"
  by (simp add: entry_ok_def count_member_def)

lemma entry_ok_new:
  "login a \<notin> set (map (\<lambda>(event, a). login a) pairs) \<Longrightarrow> entry_ok now pairs (login a) (new_member a)"
proof -
  assume "login a \<notin> set (map (\<lambda>(event, a). login a) pairs)"
  then have "filter (\<lambda>(event, b). login b = login a \<and> P event) pairs = []" for P
    by (induction pairs) auto
  from this [of "\<lambda>_. True"] this [of "is_overdue now"] this [of "is_upcoming now"]
  show ?thesis
    by (simp add: entry_ok_def new_member_def)
qed

lemma entries_countPairs:
  "(k, m) \<in> set (countPairs now pairs) \<Longrightarrow> entry_ok now pairs k m"
proof (induction pairs arbitrary: k m rule: rev_induct)
  case Nil
  then show ?case by (simp add: countPairs_def)
next
  case (snoc p pairs)
  obtain event a where p: "p = (event, a)" by (cases p)
  show ?case
  proof (cases "login a \<in> set Object_prototype_names")
    case True
    then have same: "countPairs now (pairs @ [p]) = countPairs now pairs"
      by (simp add: p countPairs_snoc countAssignee_def)
    with snoc have ok: "entry_ok now pairs k m" by simp
    have "k \<in> set (map fst (countPairs now pairs))"
      using snoc.prems same by force
    then have "k \<notin> set Object_prototype_names"
      by (simp add: keys_countPairs)
    with True have "k \<noteq> login a" by auto
    with ok show ?thesis by (simp add: p entry_ok_other)
  next
    case False
    from snoc.prems have "(k, m) \<in> set (countAssignee now event (countPairs now pairs) a)"
      by (simp add: p countPairs_snoc)
    from entries_countAssignee [OF this False]
    consider (other) "k \<noteq> login a" "(k, m) \<in> set (countPairs now pairs)"
      | (same) m0 where "k = login a" "m = count_member now event m0"
          "(k, m0) \<in> set (countPairs now pairs)
             \<or> (login a \<notin> set (map fst (countPairs now pairs)) \<and> m0 = new_member a)"
      by blast
    then show ?thesis
    proof cases
      case other
      then show ?thesis by (simp add: p snoc.IH entry_ok_other)
    next
      case same
      have "entry_ok now pairs (login a) m0"
      proof (cases "(k, m0) \<in> set (countPairs now pairs)")
        case True
        then show ?thesis using snoc.IH same(1) by simp
      next
        case False
        with same(3) have new: "login a \<notin> set (map fst (countPairs now pairs))" "m0 = new_member a"
          by auto
        from new(1) \<open>login a \<notin> set Object_prototype_names\<close>
        have "login a \<notin> set (map (\<lambda>(event, a). login a) pairs)"
          by (simp add: keys_countPairs)
        then show ?thesis using new(2) by (simp add: entry_ok_new)
      qed
      then show ?thesis by (simp add: p same(1,2) entry_ok_counted)
    qed
  qed
qed

lemma set_Object_values: "set (Object_values obj) = snd ` set obj"
  by (auto simp add: Object_values_def)

lemma Object_values_plain:
  "\<forall>kv \<in> set obj. \<not> is_array_index (fst kv) \<Longrightarrow> Object_values obj = map snd obj"
proof -
  assume a: "\<forall>kv \<in> set obj. \<not> is_array_index (fst kv)"
  then have "filter (\<lambda>kv. is_array_index (fst kv)) obj = []"
    by (simp add: filter_empty_conv)
  moreover from a have "filter (\<lambda>kv. \<not> is_array_index (fst kv)) obj = obj"
    by (simp add: filter_id_conv)
  ultimately show ?thesis
    by (simp add: Object_values_def)
qed

lemma set_analyzeTeamWorkload:
  "set (analyzeTeamWorkload now events) = snd ` set (teamWorkload now events)"
  by (simp add: analyzeTeamWorkload_def set_Object_values)

lemma teamWorkload_keys: "map fst (teamWorkload now events) = encountered_logins events"
  by (simp add: teamWorkload_pairs keys_countPairs encountered_logins_def)

lemma teamWorkload_entry:
  assumes "(k, m) \<in> set (teamWorkload now events)"
  shows "member_login m = k" and "activeIssues m = active_count k events"
    and "totalWorkload m = active_count k events"
    and "overdueIssues m = overdue_count now k events"
    and "upcomingIssues m = upcoming_count now k events"
  using entries_countPairs [of k m now "assignments events"] assms
  by (simp_all add: teamWorkload_pairs entry_ok_def active_count_def overdue_count_def
      upcoming_count_def)

lemma logins_of_filtered_values:
  "(\<And>k m. (k, m) \<in> set tw \<Longrightarrow> member_login m = k \<and> (P m \<longleftrightarrow> Q k)) \<Longrightarrow>
     map member_login (filter P (map snd tw)) = filter Q (map fst tw)"
proof (induction tw)
  case Nil
  show ?case by simp
next
  case (Cons kv tw)
  obtain k m where kv: "kv = (k, m)" by (cases kv)
  have here: "member_login m = k \<and> (P m \<longleftrightarrow> Q k)"
    using Cons.prems [of k m] by (simp add: kv)
  have "map member_login (filter P (map snd tw)) = filter Q (map fst tw)"
    using Cons.IH Cons.prems by simp
  with here show ?case by (simp add: kv)
qed

lemma filter_key_distinct:
  "distinct (map fst tw) \<Longrightarrow> (l, m) \<in> set tw \<Longrightarrow> filter (\<lambda>kv. fst kv = l) tw = [(l, m)]"
proof (induction tw)
  case Nil
  then show ?case by simp
next
  case (Cons kv tw)
  show ?case
  proof (cases "kv = (l, m)")
    case True
    from Cons.prems(1) have "l \<notin> fst ` set tw" by (simp add: True)
    then have "filter (\<lambda>kv. fst kv = l) tw = []"
      by (auto simp add: filter_empty_conv)
    then show ?thesis by (simp add: True)
  next
    case False
    with Cons.prems have in_tl: "(l, m) \<in> set tw" by simp
    then have "l \<in> fst ` set tw" by force
    with Cons.prems(1) have "fst kv \<noteq> l" by auto
    with Cons in_tl show ?thesis by simp
  qed
qed

lemma filter_Object_values:
  "filter P (Object_values obj) = Object_values (filter (\<lambda>kv. P (snd kv)) obj)"
  by (simp add: Object_values_def filter_map filter_sort comp_def conj_commute)

lemma workload_counters:
  assumes "l \<notin> set Object_prototype_names"
  shows "(active_count l events = 0 \<longrightarrow> l \<notin> member_login ` set (analyzeTeamWorkload now events))
    \<and> (0 < active_count l events \<longrightarrow>
         (\<exists>m. filter (\<lambda>m. member_login m = l) (analyzeTeamWorkload now events) = [m]
              \<and> activeIssues m = active_count l events
              \<and> totalWorkload m = active_count l events
              \<and> overdueIssues m = overdue_count now l events
              \<and> upcomingIssues m = upcoming_count now l events))"
proof (intro conjI impI)
  let ?tw = "teamWorkload now events"
  have met: "(l \<in> set (encountered_logins events)) = (0 < active_count l events)"
  proof -
    have "(0 < active_count l events)
            = (filter (\<lambda>(event, a). login a = l) (assignments events) \<noteq> [])"
      by (simp add: active_count_def)
    also have "\<dots> = (l \<in> set (map (\<lambda>(event, a). login a) (assignments events)))"
      by (auto simp add: filter_empty_conv)
    finally show ?thesis
      using assms by (auto simp add: encountered_logins_def)
  qed
  {
    assume zero: "active_count l events = 0"
    show "l \<notin> member_login ` set (analyzeTeamWorkload now events)"
    proof
      assume "l \<in> member_login ` set (analyzeTeamWorkload now events)"
      then obtain k m where km: "(k, m) \<in> set ?tw" and "member_login m = l"
        by (auto simp add: set_analyzeTeamWorkload)
      then have "k = l" using teamWorkload_entry(1) [OF km] by simp
      with km have "l \<in> set (map fst ?tw)" by force
      with met zero show False by (simp add: teamWorkload_keys)
    qed
  }
  {
    assume pos: "0 < active_count l events"
    with met have "l \<in> set (map fst ?tw)" by (simp add: teamWorkload_keys)
    then obtain m where lm: "(l, m) \<in> set ?tw" by auto
    have dist: "distinct (map fst ?tw)"
      by (simp add: teamWorkload_keys encountered_logins_def)
    have "filter (\<lambda>kv. member_login (snd kv) = l) ?tw = filter (\<lambda>kv. fst kv = l) ?tw"
    proof (rule filter_cong [OF refl])
      fix kv
      assume "kv \<in> set ?tw"
      then have "member_login (snd kv) = fst kv"
        using teamWorkload_entry(1) [of "fst kv" "snd kv" now events] by simp
      then show "(member_login (snd kv) = l) = (fst kv = l)" by simp
    qed
    also have "\<dots> = [(l, m)]"
      using dist lm by (rule filter_key_distinct)
    finally have one: "filter (\<lambda>kv. member_login (snd kv) = l) ?tw = [(l, m)]" .
    have "filter (\<lambda>m. member_login m = l) (analyzeTeamWorkload now events)
            = sort_key totalWorkload
                (Object_values (filter (\<lambda>kv. member_login (snd kv) = l) ?tw))"
      by (simp add: analyzeTeamWorkload_def filter_sort filter_Object_values)
    also have "\<dots> = sort_key totalWorkload (Object_values [(l, m)])"
      by (simp only: one)
    also have "\<dots> = [m]"
      by (simp add: Object_values_def)
    finally show "\<exists>m. filter (\<lambda>m. member_login m = l) (analyzeTeamWorkload now events) = [m]
              \<and> activeIssues m = active_count l events
              \<and> totalWorkload m = active_count l events
              \<and> overdueIssues m = overdue_count now l events
              \<and> upcomingIssues m = upcoming_count now l events"
      using teamWorkload_entry [OF lm] by blast
  }
qed

lemma closed_events_are_ignored:
  "analyzeTeamWorkload now events
     = analyzeTeamWorkload now (filter (\<lambda>event. status event \<noteq> ''closed'') events)"
proof -
  have "assignments (filter (\<lambda>event. status event \<noteq> ''closed'') events) = assignments events"
    by (induction events) (simp_all add: assignments_def)
  then show ?thesis
    by (simp add: analyzeTeamWorkload_def teamWorkload_pairs)
qed

lemma alice_scenario:
  "map (\<lambda>m. (member_login m, activeIssues m, totalWorkload m, upcomingIssues m, overdueIssues m))
     (analyzeTeamWorkload 1756684800000 events_alice) = [(''alice'', 3, 3, 1, 0)]"
  by code_simp

text \<open>
  Claim C2: a closed event changes no counter, and a non-closed event adds one to
  \<open>activeIssues\<close> and \<open>totalWorkload\<close> of each of its assignees, one to \<open>overdueIssues\<close> when
  its end is before now, and one to \<open>upcomingIssues\<close> when its start is after now. The code
  does so for every login that is not the name of a member of \<^verbatim>\<open>Object.prototype\<close> (lemmas
  \<open>workload_counters\<close> and \<open>closed_events_are_ignored\<close>; lemma \<open>alice_scenario\<close> is the
  scenario of the claim). For such a name the code misses: the open event of
  \<open>events_constructor\<close> is assigned to the login \<^verbatim>\<open>constructor\<close>, one assignment is to be
  counted, and the aggregation returns no entry at all.
\<close>

theorem C2_inherited_name_is_not_counted:
  "analyzeTeamWorkload 1756684800000 events_constructor = []
   \<and> active_count ''constructor'' events_constructor = 1"
  by code_simp

text \<open>
  Claim C8: in every entry that \<^verbatim>\<open>analyzeTeamWorkload\<close> returns, \<open>totalWorkload\<close> equals
  \<open>activeIssues\<close>.
\<close>

theorem C8_total_is_active:
  "\<forall>m \<in> set (analyzeTeamWorkload now events). totalWorkload m = activeIssues m"
proof
  fix m
  assume "m \<in> set (analyzeTeamWorkload now events)"
  then obtain k where "(k, m) \<in> set (teamWorkload now events)"
    by (auto simp add: set_analyzeTeamWorkload)
  then show "totalWorkload m = activeIssues m"
    by (simp add: teamWorkload_entry)
qed

text \<open>
  Witness for C8: the events of alice give one entry, with \<open>totalWorkload = activeIssues = 3\<close>.
\<close>

theorem C8_total_is_active_witness:
  "hd (analyzeTeamWorkload 1756684800000 events_alice)
     \<in> set (analyzeTeamWorkload 1756684800000 events_alice)
   \<and> totalWorkload (hd (analyzeTeamWorkload 1756684800000 events_alice))
       = activeIssues (hd (analyzeTeamWorkload 1756684800000 events_alice))
   \<and> activeIssues (hd (analyzeTeamWorkload 1756684800000 events_alice)) = 3"
proof -
  have one: "map (\<lambda>m. activeIssues m) (analyzeTeamWorkload 1756684800000 events_alice) = [3]"
    by code_simp
  then obtain m where r: "analyzeTeamWorkload 1756684800000 events_alice = [m]"
    by auto
  with one have three: "activeIssues m = 3"
    by simp
  have "m \<in> set (analyzeTeamWorkload 1756684800000 events_alice)"
    by (simp add: r)
  with C8_total_is_active [of 1756684800000 events_alice]
  have "totalWorkload m = activeIssues m"
    by (rule bspec)
  with three show ?thesis
    by (simp add: r)
qed

text \<open>
  Claim C3, as stated, fails on the order of ties. In \<open>events_bob_then_42\<close> the aggregation
  meets bob first and the login 42 second, and both have one open issue; the ranking lists 42
  before bob, because \<^verbatim>\<open>Object.values\<close> enumerates a key that is an array index before the
  other keys.
\<close>

theorem C3_tie_not_in_encounter_order:
  "map member_login (analyzeTeamWorkload 1756684800000 events_bob_then_42) = [''42'', ''bob'']
   \<and> map totalWorkload (analyzeTeamWorkload 1756684800000 events_bob_then_42) = [1, 1]
   \<and> encountered_logins events_bob_then_42 = [''bob'', ''42'']"
  by code_simp

text \<open>
  Claim C3, amended: the ranking is sorted ascending by \<open>totalWorkload\<close>; entries with equal
  \<open>totalWorkload\<close> keep the order in which \<^verbatim>\<open>Object.values(teamWorkload)\<close> enumerates them,
  which is the encounter order whenever no login is an array index; \<^verbatim>\<open>find_best_assignee\<close>
  recommends the first entry of the ranking, whose workload is minimal; and with the workload
  entries bob 5 and alice 2 it recommends alice.
\<close>

theorem C3_ranking_sorted_and_stable:
  "sorted (map totalWorkload (analyzeTeamWorkload now events))
   \<and> filter (\<lambda>m. totalWorkload m = w) (analyzeTeamWorkload now events)
       = filter (\<lambda>m. totalWorkload m = w) (Object_values (teamWorkload now events))
   \<and> ((\<forall>l \<in> set (encountered_logins events). \<not> is_array_index l) \<longrightarrow>
        map member_login (filter (\<lambda>m. totalWorkload m = w) (analyzeTeamWorkload now events))
          = filter (\<lambda>l. active_count l events = w) (encountered_logins events))
   \<and> (analyzeTeamWorkload now events = best # others \<longrightarrow>
        result_content (find_best_assignee ui stamp now events)
          = [TextContent (bestAssigneeText best),
             UIResource (''ui://best-assignee/'' @ show_nat stamp) (ui best (best # others))]
        \<and> (\<forall>m \<in> set others. totalWorkload best \<le> totalWorkload m))
   \<and> map (\<lambda>m. (member_login m, totalWorkload m))
         (Object_values (teamWorkload 1756684800000 events_bob5_alice2))
       = [(''bob'', 5), (''alice'', 2)]
   \<and> hd (result_content (find_best_assignee ui stamp 1756684800000 events_bob5_alice2))
       = TextContent (bestAssigneeText
           \<lparr>member_login = ''alice'', member_avatar_url = [], activeIssues = 2,
            upcomingIssues = 0, overdueIssues = 0, totalWorkload = 2\<rparr>)"
proof (intro conjI impI)
  show "sorted (map totalWorkload (analyzeTeamWorkload now events))"
    by (simp add: analyzeTeamWorkload_def)
next
  show stable: "filter (\<lambda>m. totalWorkload m = w) (analyzeTeamWorkload now events)
       = filter (\<lambda>m. totalWorkload m = w) (Object_values (teamWorkload now events))"
    by (simp add: analyzeTeamWorkload_def sort_key_stable)
  assume plain: "\<forall>l \<in> set (encountered_logins events). \<not> is_array_index l"
  have "\<forall>kv \<in> set (teamWorkload now events). \<not> is_array_index (fst kv)"
  proof
    fix kv
    assume "kv \<in> set (teamWorkload now events)"
    then have "fst kv \<in> set (map fst (teamWorkload now events))" by simp
    with plain show "\<not> is_array_index (fst kv)" by (simp add: teamWorkload_keys)
  qed
  then have plain_order: "Object_values (teamWorkload now events) = map snd (teamWorkload now events)"
    by (rule Object_values_plain)
  have "map member_login (filter (\<lambda>m. totalWorkload m = w) (map snd (teamWorkload now events)))
          = filter (\<lambda>l. active_count l events = w) (map fst (teamWorkload now events))"
    by (rule logins_of_filtered_values) (simp add: teamWorkload_entry)
  then show "map member_login (filter (\<lambda>m. totalWorkload m = w) (analyzeTeamWorkload now events))
          = filter (\<lambda>l. active_count l events = w) (encountered_logins events)"
    by (simp add: stable plain_order teamWorkload_keys)
next
  assume rank: "analyzeTeamWorkload now events = best # others"
  then show "result_content (find_best_assignee ui stamp now events)
          = [TextContent (bestAssigneeText best),
             UIResource (''ui://best-assignee/'' @ show_nat stamp) (ui best (best # others))]"
    by (simp add: find_best_assignee_def)
  have "sorted (map totalWorkload (analyzeTeamWorkload now events))"
    by (simp add: analyzeTeamWorkload_def)
  then show "\<forall>m \<in> set others. totalWorkload best \<le> totalWorkload m"
    by (simp add: rank)
next
  show "map (\<lambda>m. (member_login m, totalWorkload m))
         (Object_values (teamWorkload 1756684800000 events_bob5_alice2))
       = [(''bob'', 5), (''alice'', 2)]"
    by code_simp
next
  show "hd (result_content (find_best_assignee ui stamp 1756684800000 events_bob5_alice2))
       = TextContent (bestAssigneeText
           \<lparr>member_login = ''alice'', member_avatar_url = [], activeIssues = 2,
            upcomingIssues = 0, overdueIssues = 0, totalWorkload = 2\<rparr>)"
    by code_simp
qed

text \<open>
  Witness for C3 (amended): on \<open>events_bob5_alice2\<close> no login is an array index, the ranking is
  alice (2) before bob (5), and the entry of alice is the recommendation.
\<close>

theorem C3_ranking_sorted_and_stable_witness:
  "encountered_logins events_bob5_alice2 = [''bob'', ''alice'']
   \<and> \<not> is_array_index ''bob'' \<and> \<not> is_array_index ''alice''
   \<and> map member_login (analyzeTeamWorkload 1756684800000 events_bob5_alice2) = [''alice'', ''bob'']
   \<and> map member_login (filter (\<lambda>m. totalWorkload m = 2)
         (analyzeTeamWorkload 1756684800000 events_bob5_alice2))
       = filter (\<lambda>l. active_count l events_bob5_alice2 = 2) (encountered_logins events_bob5_alice2)
   \<and> totalWorkload (hd (analyzeTeamWorkload 1756684800000 events_bob5_alice2))
       \<le> totalWorkload (hd (tl (analyzeTeamWorkload 1756684800000 events_bob5_alice2)))"
proof -
  have logins: "encountered_logins events_bob5_alice2 = [''bob'', ''alice'']"
    by code_simp
  have idx: "\<not> is_array_index ''bob''" "\<not> is_array_index ''alice''"
    by code_simp+
  have plain: "\<forall>l \<in> set (encountered_logins events_bob5_alice2). \<not> is_array_index l"
    by (simp add: logins idx)
  have rank: "map member_login (analyzeTeamWorkload 1756684800000 events_bob5_alice2)
                = [''alice'', ''bob'']"
    by code_simp
  then obtain best other where
    split: "analyzeTeamWorkload 1756684800000 events_bob5_alice2 = [best, other]"
    by auto
  note ranking = C3_ranking_sorted_and_stable [of 1756684800000 events_bob5_alice2 2 best "[other]"]
  from ranking plain
  have ties: "map member_login (filter (\<lambda>m. totalWorkload m = 2)
                (analyzeTeamWorkload 1756684800000 events_bob5_alice2))
       = filter (\<lambda>l. active_count l events_bob5_alice2 = 2) (encountered_logins events_bob5_alice2)"
    by blast
  from ranking split
  have least: "\<forall>m \<in> set [other]. totalWorkload best \<le> totalWorkload m"
    by blast
  from logins idx rank ties least show ?thesis
    by (simp add: split)
qed

section \<open>Properties of the calendar grid\<close>

lemma localDay_dayStart: "localDay off (dayStart off k) = k"
  by (simp add: localDay_def dayStart_def msPerDay_def)

lemma dayStart_le_iff: "(dayStart off k \<le> t) = (k \<le> localDay off t)"
  unfolding localDay_def dayStart_def msPerDay_def by linarith

lemma localDay_mono: "a \<le> b \<Longrightarrow> localDay off a \<le> localDay off b"
  unfolding localDay_def msPerDay_def by (simp add: zdiv_mono1)

lemma startOfDay_dayStart: "startOfDay off t = dayStart off (localDay off t)"
  by (simp add: startOfDay_def dayStart_def)

lemma eachDay_loop_days:
  "eachDay_loop (dayStart off k) endTime = map (dayStart off) [k..localDay off endTime]"
proof (induction "nat (localDay off endTime - k + 1)" arbitrary: k)
  case 0
  then have "\<not> k \<le> localDay off endTime" by simp
  then show ?case
    by (simp add: eachDay_loop.simps [of "dayStart off k"] dayStart_le_iff)
next
  case (Suc n)
  then have le: "k \<le> localDay off endTime" by simp
  have next_day: "dayStart off k + msPerDay = dayStart off (k + 1)"
    by (simp add: dayStart_def algebra_simps)
  have "n = nat (localDay off endTime - (k + 1) + 1)"
    using Suc(2) by simp
  from Suc(1) [OF this]
  have "eachDay_loop (dayStart off (k + 1)) endTime
          = map (dayStart off) [k + 1..localDay off endTime]" .
  with le show ?case
    by (simp add: eachDay_loop.simps [of "dayStart off k"] dayStart_le_iff next_day
        upto_rec1 [of k])
qed

lemma eachDayOfInterval_days:
  "eachDayOfInterval off a b =
     (if a \<le> b then map (dayStart off) [localDay off a..localDay off b]
      else rev (map (dayStart off) [localDay off b..localDay off a]))"
  by (simp add: eachDayOfInterval_def Let_def startOfDay_dayStart eachDay_loop_days)

lemma format_dayStart: "format_yyyy_MM_dd off (dayStart off k) = format_day k"
  by (simp add: format_yyyy_MM_dd_def localDay_dayStart)

lemma daysInMonth_pos: "1 \<le> daysInMonth y m"
  by (simp add: daysInMonth_def)

lemma month_bounds: "startOfMonth off t \<le> endOfMonth off t"
  using daysInMonth_pos [of "getFullYear off t" "getMonth off t"]
  by (simp add: startOfMonth_def endOfMonth_def msPerDay_def)

lemma dayEvents_pushEvent:
  "dayEvents (foldl (pushEvent off event) byDate dates) k
     = dayEvents byDate k @ replicate (count_list (map (format_yyyy_MM_dd off) dates) k) event"
proof (induction dates arbitrary: byDate)
  case Nil
  show ?case by simp
next
  case (Cons d dates)
  have "dayEvents (pushEvent off event byDate d) k
          = dayEvents byDate k @ (if format_yyyy_MM_dd off d = k then [event] else [])"
    by (simp add: pushEvent_def dayEvents_def Let_def)
  then show ?case
    by (simp add: Cons.IH replicate_app_Cons_same)
qed

lemma dayEvents_addEvent:
  "dayEvents (addEvent off cur byDate event) k
     = dayEvents byDate k @ replicate (count_list (dateKeys off cur event) k) event"
  by (simp add: addEvent_def dayEvents_pushEvent dateKeys_def)

lemma dayEvents_addEvents:
  "dayEvents (foldl (addEvent off cur) byDate events) k
     = dayEvents byDate k
       @ concat (map (\<lambda>event. replicate (count_list (dateKeys off cur event) k) event) events)"
proof (induction events arbitrary: byDate)
  case Nil
  show ?case by simp
next
  case (Cons e events)
  from Cons.IH [of "addEvent off cur byDate e"] show ?case
    by (simp add: dayEvents_addEvent)
qed

lemma dayEvents_empty: "dayEvents Map.empty k = []"
  by (simp add: dayEvents_def)

lemma under_day_key_iff:
  "under_day_key off cur events k event
     = (event \<in> set events \<and> k \<in> set (dateKeys off cur event))"
proof -
  have "dayEvents (eventsByDate off cur events) k
          = concat (map (\<lambda>event. replicate (count_list (dateKeys off cur event) k) event) events)"
    using dayEvents_addEvents [of off cur Map.empty events k]
    by (simp add: eventsByDate_def dayEvents_empty)
  then show ?thesis
    by (auto simp add: under_day_key_def count_list_0_iff)
qed

lemma dateKeys_multi_day:
  assumes "startDate event = Instant s" and "endDate event = Some (Instant t)" and "s \<noteq> t"
  shows "dateKeys off cur event =
     (if s \<le> endOfMonth off cur \<and> startOfMonth off cur \<le> t then
        (if max s (startOfMonth off cur) \<le> min t (endOfMonth off cur)
         then map format_day [localDay off (max s (startOfMonth off cur))
                              ..localDay off (min t (endOfMonth off cur))]
         else rev (map format_day [localDay off (min t (endOfMonth off cur))
                                   ..localDay off (max s (startOfMonth off cur))]))
      else [])"
proof -
  have multi: "isMultiDay event"
    using assms by (simp add: isMultiDay_def)
  have es: "eventStart event (startOfMonth off cur) = max s (startOfMonth off cur)"
    using assms by (simp add: eventStart_def max_def)
  have ee: "eventEnd event (endOfMonth off cur) = min t (endOfMonth off cur)"
    using assms by (simp add: eventEnd_def min_def)
  have fmt: "map (format_yyyy_MM_dd off) (map (dayStart off) ks) = map format_day ks" for ks
    by (simp add: format_dayStart)
  have cond: "(max s (startOfMonth off cur) \<le> endOfMonth off cur
                \<and> startOfMonth off cur \<le> min t (endOfMonth off cur))
              = (s \<le> endOfMonth off cur \<and> startOfMonth off cur \<le> t)"
    using month_bounds [of off cur] by auto
  show ?thesis
    unfolding dateKeys_def eventDates_def Let_def es ee
    using multi cond
    by (simp add: eachDayOfInterval_days fmt rev_map [symmetric] del: map_map)
qed

lemma dateKeys_single_day:
  assumes "startDate event = Instant s"
    and "endDate event = None \<or> endDate event = Some (Instant s)"
  shows "dateKeys off cur event =
     (if isSameMonth off (Instant s) cur then [format_yyyy_MM_dd off s] else [])"
proof -
  have "\<not> isMultiDay event"
    using assms by (auto simp add: isMultiDay_def)
  then show ?thesis
    using assms(1) by (simp add: dateKeys_def eventDates_def Let_def)
qed

lemma september_2025:
  "\<forall>d \<in> {20332..20361}. civil_from_days d = (2025, 9, d - 20331)"
  by code_simp

lemma in_september_2025:
  assumes "days_from_civil 2025 9 1 \<le> localDay off cur"
    and "localDay off cur \<le> days_from_civil 2025 9 30"
  shows "getFullYear off cur = 2025" and "getMonth off cur = 8"
    and "startOfMonth off cur = dayStart off 20332"
    and "endOfMonth off cur = dayStart off 20362 - 1"
proof -
  have d1: "days_from_civil 2025 9 1 = 20332" by code_simp
  have d30: "days_from_civil 2025 9 30 = 20361" by code_simp
  from assms have "localDay off cur \<in> {20332..20361}"
    by (simp add: d1 d30)
  with september_2025
  have civil: "civil_from_days (localDay off cur) = (2025, 9, localDay off cur - 20331)"
    by (rule bspec)
  show y: "getFullYear off cur = 2025" and m: "getMonth off cur = 8"
    by (simp_all add: getFullYear_def getMonth_def civil)
  have dd: "getDate off cur = localDay off cur - 20331"
    by (simp add: getDate_def civil)
  show "startOfMonth off cur = dayStart off 20332"
    by (simp add: startOfMonth_def dd dayStart_def)
  have dim: "daysInMonth 2025 8 = 30"
    by (simp add: daysInMonth_def)
  show "endOfMonth off cur = dayStart off 20362 - 1"
    by (simp add: endOfMonth_def dd y m dim dayStart_def)
qed

lemma day_bounds:
  "localDay off t = k \<Longrightarrow> dayStart off k \<le> t \<and> t < dayStart off (k + 1)"
  unfolding localDay_def dayStart_def msPerDay_def by (simp add: algebra_simps) linarith

lemma keys_single:
  assumes "event \<in> set events" and "startDate event = Instant s"
    and "endDate event = None \<or> endDate event = Some (Instant s)"
  shows "{k. under_day_key off cur events k event}
           = (if isSameMonth off (Instant s) cur then {format_yyyy_MM_dd off s} else {})"
proof -
  have "dateKeys off cur event =
     (if isSameMonth off (Instant s) cur then [format_yyyy_MM_dd off s] else [])"
    using assms(2,3) by (rule dateKeys_single_day)
  then show ?thesis
    using assms(1) by (simp add: under_day_key_iff del: isSameMonth.simps)
qed

lemma sept15:
  assumes day: "localDay off s = days_from_civil 2025 9 15"
      and c1: "days_from_civil 2025 9 1 \<le> localDay off cur"
      and c2: "localDay off cur \<le> days_from_civil 2025 9 30"
  shows "isSameMonth off (Instant s) cur" and "format_yyyy_MM_dd off s = ''2025-09-15''"
proof -
  have d15: "days_from_civil 2025 9 15 = 20346" by code_simp
  have civil: "civil_from_days 20346 = (2025, 9, 15)" by code_simp
  have fmt: "format_day 20346 = ''2025-09-15''" by code_simp
  have ys: "getFullYear off s = 2025" "getMonth off s = 8"
    using day by (simp_all add: getFullYear_def getMonth_def d15 civil)
  show "isSameMonth off (Instant s) cur"
    using in_september_2025(1,2) [OF c1 c2] ys by simp
  show "format_yyyy_MM_dd off s = ''2025-09-15''"
    using day by (simp add: format_yyyy_MM_dd_def d15 fmt)
qed

lemma keys_multi:
  assumes "event \<in> set events" and "startDate event = Instant s"
    and "endDate event = Some (Instant t)" and "s \<noteq> t"
  shows "{k. under_day_key off cur events k event} =
     (if s \<le> endOfMonth off cur \<and> startOfMonth off cur \<le> t then
        (if max s (startOfMonth off cur) \<le> min t (endOfMonth off cur)
         then format_day ` {localDay off (max s (startOfMonth off cur))
                              ..localDay off (min t (endOfMonth off cur))}
         else format_day ` {localDay off (min t (endOfMonth off cur))
                              ..localDay off (max s (startOfMonth off cur))})
      else {})"
proof -
  have under: "{k. under_day_key off cur events k event} = set (dateKeys off cur event)"
    using assms(1) by (simp add: under_day_key_iff)
  note keys = dateKeys_multi_day [OF assms(2,3,4), of off cur]
  show ?thesis
  proof (cases "s \<le> endOfMonth off cur \<and> startOfMonth off cur \<le> t")
    case False
    then have "dateKeys off cur event = []"
      by (simp only: keys if_False)
    with False show ?thesis
      by (simp only: under if_False) simp
  next
    case True
    show ?thesis
    proof (cases "max s (startOfMonth off cur) \<le> min t (endOfMonth off cur)")
      case ordered: True
      have "dateKeys off cur event
              = map format_day [localDay off (max s (startOfMonth off cur))
                                ..localDay off (min t (endOfMonth off cur))]"
        by (simp only: keys True ordered if_True simp_thms)
      then have "set (dateKeys off cur event)
              = format_day ` {localDay off (max s (startOfMonth off cur))
                                ..localDay off (min t (endOfMonth off cur))}"
        by (simp only: set_map set_upto)
      then show ?thesis
        by (simp only: under True ordered if_True simp_thms)
    next
      case reversed: False
      have "dateKeys off cur event
              = rev (map format_day [localDay off (min t (endOfMonth off cur))
                                     ..localDay off (max s (startOfMonth off cur))])"
        by (simp only: keys True reversed if_True if_False simp_thms)
      then have "set (dateKeys off cur event)
              = format_day ` {localDay off (min t (endOfMonth off cur))
                                ..localDay off (max s (startOfMonth off cur))}"
        by (simp only: set_rev set_map set_upto)
      then show ?thesis
        by (simp only: under True reversed if_True if_False simp_thms)
    qed
  qed
qed

lemma clipped_order:
  assumes "s \<le> me" and "ms \<le> t" and "s < t" and "ms \<le> (me :: int)"
  shows "max s ms \<le> min t me"
  using assms by simp

lemma clipped_days_subset:
  assumes "\<not> max s ms \<le> min t (me :: int)"
  shows "{localDay off (max s ms)..localDay off (min t me)}
           \<subseteq> {localDay off (min t me)..localDay off (max s ms)}"
proof -
  from assms have "min t me \<le> max s ms" by linarith
  then have "localDay off (min t me) \<le> localDay off (max s ms)"
    by (rule localDay_mono)
  then show ?thesis by auto
qed

lemma sept_span:
  assumes "event \<in> set events" and "startDate event = Instant s"
    and "endDate event = Some (Instant t)"
    and ds: "localDay off s = days_from_civil 2025 8 30"
    and dt: "localDay off t = days_from_civil 2025 9 5"
    and c1: "days_from_civil 2025 9 1 \<le> localDay off cur"
    and c2: "localDay off cur \<le> days_from_civil 2025 9 30"
  shows "{k. under_day_key off cur events k event}
           = {''2025-09-01'', ''2025-09-02'', ''2025-09-03'', ''2025-09-04'', ''2025-09-05''}"
proof -
  have d0830: "days_from_civil 2025 8 30 = 20330" by code_simp
  have d0905: "days_from_civil 2025 9 5 = 20336" by code_simp
  note month = in_september_2025(3,4) [OF c1 c2]
  from day_bounds [OF ds [unfolded d0830]]
  have s_hi: "s < dayStart off 20331" by simp
  from day_bounds [OF dt [unfolded d0905]]
  have t_lo: "dayStart off 20336 \<le> t" and t_hi: "t < dayStart off 20337" by simp_all
  have s_lt_ms: "s < startOfMonth off cur"
    using s_hi by (simp add: month dayStart_def msPerDay_def)
  have ms_le_t: "startOfMonth off cur \<le> t"
    using t_lo by (simp add: month dayStart_def msPerDay_def)
  have t_lt_me: "t < endOfMonth off cur"
    using t_hi by (simp add: month dayStart_def msPerDay_def)
  have st: "s \<noteq> t" "s < t" using s_lt_ms ms_le_t by simp_all
  have cs: "max s (startOfMonth off cur) = dayStart off 20332"
    using s_lt_ms by (simp add: month)
  have ce: "min t (endOfMonth off cur) = t"
    using t_lt_me by simp
  have overlap: "s \<le> endOfMonth off cur \<and> startOfMonth off cur \<le> t"
    using s_lt_ms ms_le_t t_lt_me by simp
  have ordered: "dayStart off 20332 \<le> t"
    using ms_le_t by (simp add: month)
  have "{k. under_day_key off cur events k event} = format_day ` {20332..20336}"
    unfolding keys_multi [OF assms(1,2,3) st(1)] cs ce
    using overlap ordered by (simp add: localDay_dayStart dt d0905)
  also have "\<dots> = set (map format_day [20332..20336])"
    by (simp only: set_map set_upto)
  also have "map format_day [20332..20336]
               = [''2025-09-01'', ''2025-09-02'', ''2025-09-03'', ''2025-09-04'', ''2025-09-05'']"
    by code_simp
  finally show ?thesis by simp
qed

text \<open>
  An event of the collection with valid start and end at different instants, read in a zone of
  fixed offset: it stands under no key when it does not overlap the month; otherwise under the
  key of every day of the clipped inclusive range, and under exactly these keys when its start
  is before its end. When it begins on the local day 2025-08-30 and ends on the local day
  2025-09-05, its keys in September 2025 are 2025-09-01 to 2025-09-05.
\<close>

lemma multi_day_event_on_local_days:
  assumes "event \<in> set events" and "startDate event = Instant s"
    and "endDate event = Some (Instant t)" and "s \<noteq> t"
  shows "(\<not> (s \<le> endOfMonth off cur \<and> startOfMonth off cur \<le> t) \<longrightarrow>
            {k. under_day_key off cur events k event} = {})
    \<and> (s \<le> endOfMonth off cur \<and> startOfMonth off cur \<le> t \<longrightarrow>
         format_day ` {localDay off (max s (startOfMonth off cur))
                         ..localDay off (min t (endOfMonth off cur))}
           \<subseteq> {k. under_day_key off cur events k event})
    \<and> (s \<le> endOfMonth off cur \<and> startOfMonth off cur \<le> t \<and> s < t \<longrightarrow>
         {k. under_day_key off cur events k event}
           = format_day ` {localDay off (max s (startOfMonth off cur))
                             ..localDay off (min t (endOfMonth off cur))})
    \<and> (localDay off s = days_from_civil 2025 8 30 \<and> localDay off t = days_from_civil 2025 9 5
         \<and> days_from_civil 2025 9 1 \<le> localDay off cur
         \<and> localDay off cur \<le> days_from_civil 2025 9 30 \<longrightarrow>
         {k. under_day_key off cur events k event}
           = {''2025-09-01'', ''2025-09-02'', ''2025-09-03'', ''2025-09-04'', ''2025-09-05''})"
proof (intro conjI impI)
  note keys = keys_multi [OF assms, of off cur]
  {
    assume "\<not> (s \<le> endOfMonth off cur \<and> startOfMonth off cur \<le> t)"
    then show "{k. under_day_key off cur events k event} = {}"
      by (simp only: keys if_False)
  }
  {
    assume overlap: "s \<le> endOfMonth off cur \<and> startOfMonth off cur \<le> t"
    show "format_day ` {localDay off (max s (startOfMonth off cur))
                         ..localDay off (min t (endOfMonth off cur))}
           \<subseteq> {k. under_day_key off cur events k event}"
    proof (cases "max s (startOfMonth off cur) \<le> min t (endOfMonth off cur)")
      case True
      then show ?thesis
        by (simp only: keys overlap if_True simp_thms subset_refl)
    next
      case False
      from clipped_days_subset [OF False, of off]
      have "format_day ` {localDay off (max s (startOfMonth off cur))
                         ..localDay off (min t (endOfMonth off cur))}
           \<subseteq> format_day ` {localDay off (min t (endOfMonth off cur))
                         ..localDay off (max s (startOfMonth off cur))}"
        by (rule image_mono)
      with False show ?thesis
        by (simp only: keys overlap if_True if_False simp_thms)
    qed
  }
  {
    assume "s \<le> endOfMonth off cur \<and> startOfMonth off cur \<le> t \<and> s < t"
    then have overlap: "s \<le> endOfMonth off cur \<and> startOfMonth off cur \<le> t" and "s < t"
      by simp_all
    then have "max s (startOfMonth off cur) \<le> min t (endOfMonth off cur)"
      using month_bounds [of off cur] by (simp add: clipped_order)
    then show "{k. under_day_key off cur events k event}
           = format_day ` {localDay off (max s (startOfMonth off cur))
                             ..localDay off (min t (endOfMonth off cur))}"
      by (simp only: keys overlap if_True simp_thms)
  }
  {
    assume "localDay off s = days_from_civil 2025 8 30 \<and> localDay off t = days_from_civil 2025 9 5
         \<and> days_from_civil 2025 9 1 \<le> localDay off cur
         \<and> localDay off cur \<le> days_from_civil 2025 9 30"
    then show "{k. under_day_key off cur events k event}
           = {''2025-09-01'', ''2025-09-02'', ''2025-09-03'', ''2025-09-04'', ''2025-09-05''}"
      using sept_span [OF assms(1,2,3), of off cur] by blast
  }
qed

text \<open>
  In UTC, \<open>event_0830_0905\<close> seen from 2025-09-15 stands under the five keys of September, and
  seen from 2025-10-15 (the month begins at 1759276800000 ms, after the event has ended) under
  none.
\<close>

lemma multi_day_event_on_local_days_example:
  "event_0830_0905 \<in> set [event_0830_0905]
   \<and> startDate event_0830_0905 = Instant 1756512000000
   \<and> endDate event_0830_0905 = Some (Instant 1757030400000)
   \<and> (1756512000000 :: int) < 1757030400000
   \<and> localDay 0 1756512000000 = days_from_civil 2025 8 30
   \<and> localDay 0 1757030400000 = days_from_civil 2025 9 5
   \<and> days_from_civil 2025 9 1 \<le> localDay 0 1757894400000
   \<and> localDay 0 1757894400000 \<le> days_from_civil 2025 9 30
   \<and> {k. under_day_key 0 1757894400000 [event_0830_0905] k event_0830_0905}
       = {''2025-09-01'', ''2025-09-02'', ''2025-09-03'', ''2025-09-04'', ''2025-09-05''}
   \<and> startOfMonth 0 1760486400000 = 1759276800000
   \<and> (1757030400000 :: int) < 1759276800000
   \<and> {k. under_day_key 0 1760486400000 [event_0830_0905] k event_0830_0905} = {}"
proof -
  have mem: "event_0830_0905 \<in> set [event_0830_0905]" by simp
  have sd: "startDate event_0830_0905 = Instant 1756512000000"
    by (simp add: event_0830_0905_def sample_event_def)
  have ed: "endDate event_0830_0905 = Some (Instant 1757030400000)"
    by (simp add: event_0830_0905_def sample_event_def)
  have ne: "(1756512000000 :: int) \<noteq> 1757030400000" by simp
  have days: "localDay 0 1756512000000 = days_from_civil 2025 8 30"
    "localDay 0 1757030400000 = days_from_civil 2025 9 5"
    "days_from_civil 2025 9 1 \<le> localDay 0 1757894400000"
    "localDay 0 1757894400000 \<le> days_from_civil 2025 9 30"
    by code_simp+
  have october: "startOfMonth 0 1760486400000 = 1759276800000"
    by code_simp
  have hyp: "localDay 0 1756512000000 = days_from_civil 2025 8 30
       \<and> localDay 0 1757030400000 = days_from_civil 2025 9 5
       \<and> days_from_civil 2025 9 1 \<le> localDay 0 1757894400000
       \<and> localDay 0 1757894400000 \<le> days_from_civil 2025 9 30"
    using days by (intro conjI)
  note september = multi_day_event_on_local_days [OF mem sd ed ne, of 0 1757894400000]
  have in_month: "{k. under_day_key 0 1757894400000 [event_0830_0905] k event_0830_0905}
       = {''2025-09-01'', ''2025-09-02'', ''2025-09-03'', ''2025-09-04'', ''2025-09-05''}"
    using september [THEN conjunct2, THEN conjunct2, THEN conjunct2] hyp by (rule mp)
  have before: "(1757030400000 :: int) < 1759276800000" by simp
  have apart: "\<not> ((1756512000000 :: int) \<le> endOfMonth 0 1760486400000
              \<and> startOfMonth 0 1760486400000 \<le> 1757030400000)"
    by (simp only: october) simp
  note october_grid = multi_day_event_on_local_days [OF mem sd ed ne, of 0 1760486400000]
  have out_of_month: "{k. under_day_key 0 1760486400000 [event_0830_0905] k event_0830_0905} = {}"
    using october_grid [THEN conjunct1] apart by (rule mp)
  have lt: "(1756512000000 :: int) < 1757030400000" by simp
  show ?thesis
    by (intro conjI mem sd ed lt days in_month october before out_of_month)
qed

text \<open>
  An event of the collection whose end is \<^verbatim>\<open>null\<close> or the very instant of its valid start,
  read in a zone of fixed offset: it stands under exactly one key, that of the local day of its
  start, when the start falls in the month of the reference date, and under none otherwise.
  When the start falls on the local day 2025-09-15, the only key in September 2025 is
  2025-09-15.
\<close>

lemma single_day_event_on_local_day:
  assumes "event \<in> set events" and "startDate event = Instant s"
    and "endDate event = None \<or> endDate event = Some (Instant s)"
  shows "{k. under_day_key off cur events k event}
           = (if isSameMonth off (Instant s) cur then {format_yyyy_MM_dd off s} else {})
    \<and> (localDay off s = days_from_civil 2025 9 15
         \<and> days_from_civil 2025 9 1 \<le> localDay off cur
         \<and> localDay off cur \<le> days_from_civil 2025 9 30 \<longrightarrow>
        {k. under_day_key off cur events k event} = {''2025-09-15''}
        \<and> \<not> under_day_key off cur events ''2025-09-14'' event
        \<and> \<not> under_day_key off cur events ''2025-09-16'' event)"
proof (intro conjI impI)
  note keys = keys_single [OF assms, of off cur]
  show "{k. under_day_key off cur events k event}
           = (if isSameMonth off (Instant s) cur then {format_yyyy_MM_dd off s} else {})"
    by (rule keys)
  assume "localDay off s = days_from_civil 2025 9 15
         \<and> days_from_civil 2025 9 1 \<le> localDay off cur
         \<and> localDay off cur \<le> days_from_civil 2025 9 30"
  then have h: "localDay off s = days_from_civil 2025 9 15"
    "days_from_civil 2025 9 1 \<le> localDay off cur"
    "localDay off cur \<le> days_from_civil 2025 9 30"
    by simp_all
  note day = sept15 [OF h]
  show only: "{k. under_day_key off cur events k event} = {''2025-09-15''}"
    by (simp only: keys day if_True)
  then have iff: "under_day_key off cur events k event = (k = ''2025-09-15'')" for k
    by blast
  show "\<not> under_day_key off cur events ''2025-09-14'' event"
    by (simp add: iff)
  show "\<not> under_day_key off cur events ''2025-09-16'' event"
    by (simp add: iff)
qed

text \<open>In UTC, \<open>event_0915\<close> seen from 2025-09-05 stands under 2025-09-15 only.\<close>

lemma single_day_event_on_local_day_example:
  "event_0915 \<in> set [event_0915]
   \<and> startDate event_0915 = Instant 1757894400000
   \<and> endDate event_0915 = None
   \<and> localDay 0 1757894400000 = days_from_civil 2025 9 15
   \<and> days_from_civil 2025 9 1 \<le> localDay 0 1757030400000
   \<and> localDay 0 1757030400000 \<le> days_from_civil 2025 9 30
   \<and> {k. under_day_key 0 1757030400000 [event_0915] k event_0915} = {''2025-09-15''}"
proof -
  have mem: "event_0915 \<in> set [event_0915]" by simp
  have sd: "startDate event_0915 = Instant 1757894400000"
    by (simp add: event_0915_def sample_event_def)
  have ed: "endDate event_0915 = None"
    by (simp add: event_0915_def sample_event_def)
  then have ed': "endDate event_0915 = None \<or> endDate event_0915 = Some (Instant 1757894400000)"
    by simp
  have days: "localDay 0 1757894400000 = days_from_civil 2025 9 15"
    "days_from_civil 2025 9 1 \<le> localDay 0 1757030400000"
    "localDay 0 1757030400000 \<le> days_from_civil 2025 9 30"
    by code_simp+
  have hyp: "localDay 0 1757894400000 = days_from_civil 2025 9 15
       \<and> days_from_civil 2025 9 1 \<le> localDay 0 1757030400000
       \<and> localDay 0 1757030400000 \<le> days_from_civil 2025 9 30"
    using days by (intro conjI)
  note grid = single_day_event_on_local_day [OF mem sd ed', of 0 1757030400000]
  have only: "{k. under_day_key 0 1757030400000 [event_0915] k event_0915} = {''2025-09-15''}"
    using grid [THEN conjunct2] hyp by (rule mp [THEN conjunct1])
  show ?thesis
    by (intro conjI mem sd ed days only)
qed

text \<open>
  Claim C6 says that an event spanning 2025-08-30 to 2025-09-05, projected onto September 2025,
  stands under the day keys 2025-09-01 to 2025-09-05 and no other. The code misses this in
  every zone west of UTC. \<^verbatim>\<open>transformToCalendarEvents\<close> builds the two dates of
  \<open>item_0830_to_0905\<close> with \<^verbatim>\<open>new Date('2025-08-30')\<close> and \<^verbatim>\<open>new Date('2025-09-05')\<close>, which
  are the midnights UTC of these days, and \<^verbatim>\<open>createCalendarUI\<close> reads them in local time.
  Five hours west of UTC (offset -18000000 ms), seen from an instant of September 2025, the
  event ends on the local day 2025-09-04: it stands under the keys 2025-09-01 to 2025-09-04,
  and the key 2025-09-05 holds no event. (When the start and the end do fall on these local
  days, the keys are the five of the claim: lemma \<open>multi_day_event_on_local_days\<close>.)
\<close>

theorem C6_west_of_UTC_last_day_missing:
  "map startDate (transformToCalendarEvents newDate [item_0830_to_0905]) = [Instant 1756512000000]
   \<and> map endDate (transformToCalendarEvents newDate [item_0830_to_0905])
       = [Some (Instant 1757030400000)]
   \<and> getFullYear (-18000000) 1758000000000 = 2025 \<and> getMonth (-18000000) 1758000000000 = 8
   \<and> map (dateKeys (-18000000) 1758000000000)
         (transformToCalendarEvents newDate [item_0830_to_0905])
       = [[''2025-09-01'', ''2025-09-02'', ''2025-09-03'', ''2025-09-04'']]
   \<and> dayEvents (eventsByDate (-18000000) 1758000000000
         (transformToCalendarEvents newDate [item_0830_to_0905])) ''2025-09-04''
       = transformToCalendarEvents newDate [item_0830_to_0905]
   \<and> dayEvents (eventsByDate (-18000000) 1758000000000
         (transformToCalendarEvents newDate [item_0830_to_0905])) ''2025-09-05'' = []"
  by code_simp

text \<open>
  Claim C7 says that a single-day event on 2025-09-15 stands under the day key 2025-09-15 only,
  never under an adjacent day. The code misses this in every zone west of UTC, by the defect
  shown for C6: \<^verbatim>\<open>transformToCalendarEvents\<close> builds the start of \<open>item_on_0915\<close> with
  \<^verbatim>\<open>new Date('2025-09-15')\<close>, the midnight UTC of that day, and \<^verbatim>\<open>createCalendarUI\<close> formats
  it in local time. Five hours west of UTC (offset -18000000 ms), seen from an instant of
  September 2025, the event stands under the adjacent key 2025-09-14, and the key 2025-09-15
  holds no event. (When the start does fall on the local day 2025-09-15, the only key is
  2025-09-15: lemma \<open>single_day_event_on_local_day\<close>.)
\<close>

theorem C7_west_of_UTC_previous_day:
  "map startDate (transformToCalendarEvents newDate [item_on_0915]) = [Instant 1757894400000]
   \<and> map endDate (transformToCalendarEvents newDate [item_on_0915]) = [None]
   \<and> getFullYear (-18000000) 1758000000000 = 2025 \<and> getMonth (-18000000) 1758000000000 = 8
   \<and> map (dateKeys (-18000000) 1758000000000) (transformToCalendarEvents newDate [item_on_0915])
       = [[''2025-09-14'']]
   \<and> dayEvents (eventsByDate (-18000000) 1758000000000
         (transformToCalendarEvents newDate [item_on_0915])) ''2025-09-14''
       = transformToCalendarEvents newDate [item_on_0915]
   \<and> dayEvents (eventsByDate (-18000000) 1758000000000
         (transformToCalendarEvents newDate [item_on_0915])) ''2025-09-15'' = []"
  by code_simp

section \<open>Properties of the tool-call handler\<close>

lemma callTool_throw:
  "switch_tool bodies name args = Inl err \<Longrightarrow>
     callTool bodies name args
       = \<lparr>result_content = [TextContent (''Error: '' @ message err)], isError = True\<rparr>"
  by (simp add: callTool_def)

lemma switch_tool_unknown:
  "name \<notin> set tool_names \<Longrightarrow> switch_tool bodies name args = Inl (Error (''Unknown tool: '' @ name))"
  by (simp add: switch_tool_def tool_names_def)

text \<open>
  Claim C9: a request whose name is none of the five tools is answered by a result whose only
  content block is the text \<^verbatim>\<open>Error: Unknown tool: \<close> followed by the name, with \<open>isError\<close> set;
  every error thrown by the body of a case is answered in the same way, by the text
  \<^verbatim>\<open>Error: \<close> followed by its message; and the handler returns a result in every case, so no
  exception leaves it.
\<close>

theorem C9_errors_become_error_blocks:
  "(name \<notin> set tool_names \<longrightarrow>
      callTool bodies name args
        = \<lparr>result_content = [TextContent (''Error: Unknown tool: '' @ name)], isError = True\<rparr>)
   \<and> (switch_tool bodies name args = Inl err \<longrightarrow>
      callTool bodies name args
        = \<lparr>result_content = [TextContent (''Error: '' @ message err)], isError = True\<rparr>)
   \<and> (switch_tool bodies name args = Inr result \<longrightarrow> callTool bodies name args = result)"
proof (intro conjI impI)
  assume "name \<notin> set tool_names"
  then have "switch_tool bodies name args = Inl (Error (''Unknown tool: '' @ name))"
    by (rule switch_tool_unknown)
  then show "callTool bodies name args
        = \<lparr>result_content = [TextContent (''Error: Unknown tool: '' @ name)], isError = True\<rparr>"
    by (simp add: callTool_def)
next
  assume "switch_tool bodies name args = Inl err"
  then show "callTool bodies name args
        = \<lparr>result_content = [TextContent (''Error: '' @ message err)], isError = True\<rparr>"
    by (rule callTool_throw)
next
  assume "switch_tool bodies name args = Inr result"
  then show "callTool bodies name args = result"
    by (simp add: callTool_def)
qed

text \<open>
  Witness for C9: with \<open>sample_bodies\<close> the unknown name \<^verbatim>\<open>frobnicate\<close> and the throwing case
  \<^verbatim>\<open>get_calendar_events\<close> give error blocks, and \<^verbatim>\<open>get_team_status\<close> gives its report.
\<close>

theorem C9_errors_become_error_blocks_witness:
  "''frobnicate'' \<notin> set tool_names
   \<and> callTool sample_bodies ''frobnicate'' ()
       = \<lparr>result_content = [TextContent ''Error: Unknown tool: frobnicate''], isError = True\<rparr>
   \<and> switch_tool sample_bodies ''get_calendar_events'' () = Inl (RangeError ''Invalid time value'')
   \<and> callTool sample_bodies ''get_calendar_events'' ()
       = \<lparr>result_content = [TextContent ''Error: Invalid time value''], isError = True\<rparr>
   \<and> switch_tool sample_bodies ''get_team_status'' () = Inr sample_report
   \<and> callTool sample_bodies ''get_team_status'' () = sample_report"
proof -
  have unknown: "''frobnicate'' \<notin> set tool_names"
    by (simp add: tool_names_def)
  have thrown: "switch_tool sample_bodies ''get_calendar_events'' ()
                  = Inl (RangeError ''Invalid time value'')"
    by (simp add: switch_tool_def sample_bodies_def)
  have returned: "switch_tool sample_bodies ''get_team_status'' () = Inr sample_report"
    by (simp add: switch_tool_def sample_bodies_def)
  note a = C9_errors_become_error_blocks [of "''frobnicate''" sample_bodies "()", THEN conjunct1]
  note b = C9_errors_become_error_blocks
    [of "''get_calendar_events''" sample_bodies "()" "RangeError ''Invalid time value''",
     THEN conjunct2, THEN conjunct1]
  note c = C9_errors_become_error_blocks
    [of "''get_team_status''" sample_bodies "()" _ sample_report, THEN conjunct2, THEN conjunct2]
  have r1: "callTool sample_bodies ''frobnicate'' ()
       = \<lparr>result_content = [TextContent ''Error: Unknown tool: frobnicate''], isError = True\<rparr>"
    using a [THEN mp, OF unknown] by simp
  have r2: "callTool sample_bodies ''get_calendar_events'' ()
       = \<lparr>result_content = [TextContent ''Error: Invalid time value''], isError = True\<rparr>"
    using b [THEN mp, OF thrown] by simp
  have r3: "callTool sample_bodies ''get_team_status'' () = sample_report"
    using c [THEN mp, OF returned] .
  show ?thesis
    by (intro conjI unknown thrown returned r1 r2 r3)
qed

section \<open>Properties of fetchProjectItems\<close>

lemma loop_full_pages:
  "\<forall>p \<in> set pages. length p = perPage \<Longrightarrow>
     fetchIssuesByLabel_loop acc (map Fulfilled pages @ Rejected e # rest)
       = Some (acc @ map searchItem (concat pages), rest)"
proof (induction pages arbitrary: acc)
  case Nil
  show ?case by simp
next
  case (Cons p pages)
  then have full: "length p = perPage" and more: "\<forall>p \<in> set pages. length p = perPage"
    by simp_all
  from full have "length p \<noteq> 0" by (simp add: perPage_def)
  with full Cons.IH [OF more, of "acc @ map searchItem p"] show ?case
    by (simp add: Let_def)
qed

lemma fetchIssuesByLabel_no_retry:
  "\<forall>p \<in> set pages. length p = perPage \<Longrightarrow>
     fetchIssuesByLabel org (Instant t0) (map Fulfilled pages @ Rejected e # rest)
       = Some (map searchItem (concat pages), rest)"
  using loop_full_pages [of pages "[]" e rest]
  by (simp add: fetchIssuesByLabel_def)

lemma fetchProjectItems_fallback:
  "fetchProjectItemsGraphQL parse org pn (sinceOrDefault parse sinceDate) (graphql_replies up)
      = Some (Inl graphqlError, g) \<Longrightarrow>
   fetchProjectItems parse up org pn sinceDate
     = map_option (\<lambda>(items, s). (Inr items, \<lparr>graphql_replies = g, search_replies = s\<rparr>))
         (fetchIssuesByLabel org (sinceOrDefault parse sinceDate) (search_replies up))"
  by (simp add: fetchProjectItems_def Let_def split: option.splits)

lemma fetchProjectItems_never_throws:
  "fetchProjectItems parse up org pn sinceDate \<noteq> Some (Inl e, up')"
  by (auto simp add: fetchProjectItems_def Let_def split: option.splits sum.splits prod.splits)

text \<open>
  Claim C5, as stated, fails in its second half. On \<open>upstream_both_fail\<close> the GraphQL request
  is rejected and the search request is rejected too; \<^verbatim>\<open>fetchProjectItems\<close> does not throw
  but returns the empty list, a success without items.
\<close>

theorem C5_both_paths_fail_empty_success:
  "fetchProjectItems newDate upstream_both_fail ''squareup'' 333 None
     = Some (Inr [], \<lparr>graphql_replies = [], search_replies = []\<rparr>)"
  by code_simp

text \<open>
  Claim C5, amended: when the GraphQL path throws, \<^verbatim>\<open>fetchProjectItems\<close> runs the label
  search once and its outcome is the outcome of that one run; no GraphQL reply is consumed after
  the failure. When a search request fails after some full pages, the error is swallowed, no
  request is repeated (the replies after the failed one are left untouched) and the items of
  the pages read so far, possibly none, are returned as a success. \<^verbatim>\<open>fetchProjectItems\<close>
  never throws.
\<close>

theorem C5_fallback_once_errors_swallowed:
  assumes "fetchProjectItemsGraphQL parse org pn (sinceOrDefault parse sinceDate) (graphql_replies up)
             = Some (Inl graphqlError, g)"
  shows "fetchProjectItems parse up org pn sinceDate
           = map_option (\<lambda>(items, s). (Inr items, \<lparr>graphql_replies = g, search_replies = s\<rparr>))
               (fetchIssuesByLabel org (sinceOrDefault parse sinceDate) (search_replies up))
    \<and> (sinceOrDefault parse sinceDate = Instant t0
         \<and> search_replies up = map Fulfilled pages @ Rejected searchError # rest
         \<and> list_all (\<lambda>p. length p = perPage) pages \<longrightarrow>
        fetchProjectItems parse up org pn sinceDate
          = Some (Inr (map searchItem (concat pages)),
                  \<lparr>graphql_replies = g, search_replies = rest\<rparr>))
    \<and> fetchProjectItems parse up org pn sinceDate \<noteq> Some (Inl e, up')"
proof (intro conjI impI)
  show fb: "fetchProjectItems parse up org pn sinceDate
           = map_option (\<lambda>(items, s). (Inr items, \<lparr>graphql_replies = g, search_replies = s\<rparr>))
               (fetchIssuesByLabel org (sinceOrDefault parse sinceDate) (search_replies up))"
    using assms by (rule fetchProjectItems_fallback)
  show "fetchProjectItems parse up org pn sinceDate \<noteq> Some (Inl e, up')"
    by (rule fetchProjectItems_never_throws)
  assume "sinceOrDefault parse sinceDate = Instant t0
         \<and> search_replies up = map Fulfilled pages @ Rejected searchError # rest
         \<and> list_all (\<lambda>p. length p = perPage) pages"
  then have since: "sinceOrDefault parse sinceDate = Instant t0"
    and replies: "search_replies up = map Fulfilled pages @ Rejected searchError # rest"
    and full: "\<forall>p \<in> set pages. length p = perPage"
    by (simp_all add: list_all_iff)
  show "fetchProjectItems parse up org pn sinceDate
          = Some (Inr (map searchItem (concat pages)),
                  \<lparr>graphql_replies = g, search_replies = rest\<rparr>)"
    by (simp add: fb since replies fetchIssuesByLabel_no_retry [OF full])
qed

text \<open>
  Witness for C5 (amended): on \<open>upstream_partial\<close> the project is missing, the search reads one
  full page and fails on the second request; the hundred items of the first page are returned,
  and the second GraphQL reply and the third search reply are still unread.
\<close>

theorem C5_fallback_once_errors_swallowed_witness:
  "fetchProjectItemsGraphQL newDate ''squareup'' 333 (sinceOrDefault newDate None)
       (graphql_replies upstream_partial)
     = Some (Inl (Error ''Project 333 not found for organization squareup''),
             [Fulfilled (Project \<lparr>nodes = [], hasNextPage = False, endCursor = None\<rparr>)])
   \<and> sinceOrDefault newDate None = Instant 1754006400000
   \<and> search_replies upstream_partial
       = map Fulfilled [replicate 100 sample_hit]
         @ Rejected (Error ''API rate limit exceeded'') # [Fulfilled [sample_hit]]
   \<and> list_all (\<lambda>p. length p = perPage) [replicate 100 sample_hit]
   \<and> fetchProjectItems newDate upstream_partial ''squareup'' 333 None
       = Some (Inr (replicate 100 (searchItem sample_hit)),
               \<lparr>graphql_replies =
                  [Fulfilled (Project \<lparr>nodes = [], hasNextPage = False, endCursor = None\<rparr>)],
                search_replies = [Fulfilled [sample_hit]]\<rparr>)"
proof -
  have since: "sinceOrDefault newDate None = Instant 1754006400000"
    by code_simp
  have number: "show_nat 333 = ''333''"
    by code_simp
  have primary: "fetchProjectItemsGraphQL newDate ''squareup'' 333 (sinceOrDefault newDate None)
       (graphql_replies upstream_partial)
     = Some (Inl (Error ''Project 333 not found for organization squareup''),
             [Fulfilled (Project \<lparr>nodes = [], hasNextPage = False, endCursor = None\<rparr>)])"
    by (simp add: fetchProjectItemsGraphQL_def upstream_partial_def number)
  have replies: "search_replies upstream_partial
       = map Fulfilled [replicate 100 sample_hit]
         @ Rejected (Error ''API rate limit exceeded'') # [Fulfilled [sample_hit]]"
    by (simp add: upstream_partial_def)
  have full: "list_all (\<lambda>p. length p = perPage) [replicate 100 sample_hit]"
    by (simp add: perPage_def)
  note fallback = C5_fallback_once_errors_swallowed [OF primary,
      of 1754006400000 "[replicate 100 sample_hit]" "Error ''API rate limit exceeded''"
         "[Fulfilled [sample_hit]]", THEN conjunct2, THEN conjunct1]
  have "fetchProjectItems newDate upstream_partial ''squareup'' 333 None
       = Some (Inr (map searchItem (concat [replicate 100 sample_hit])),
               \<lparr>graphql_replies =
                  [Fulfilled (Project \<lparr>nodes = [], hasNextPage = False, endCursor = None\<rparr>)],
                search_replies = [Fulfilled [sample_hit]]\<rparr>)"
    using fallback since replies full by (simp only: simp_thms)
  then have result: "fetchProjectItems newDate upstream_partial ''squareup'' 333 None
       = Some (Inr (replicate 100 (searchItem sample_hit)),
               \<lparr>graphql_replies =
                  [Fulfilled (Project \<lparr>nodes = [], hasNextPage = False, endCursor = None\<rparr>)],
                search_replies = [Fulfilled [sample_hit]]\<rparr>)"
    by (simp add: map_replicate)
  show ?thesis
    by (intro conjI primary since replies full result)
qed

end
